theory Spec2Isabelle
  imports Main "HOL-Library.Word"
begin

section \<open>Go values shared by the packages\<close>

text \<open>
  A Go \<^verbatim>\<open>string\<close> and a Go \<^verbatim>\<open>[]byte\<close> are both sequences of 8-bit bytes, as a HOL
  \<^typ>\<open>string\<close> is. A callback \<^verbatim>\<open>func(b []byte)\<close> is an opaque effect: it is named by an
  identity, \<^verbatim>\<open>nil\<close> is \<^term>\<open>None\<close>, and the world records every invocation in order.
\<close>

type_synonym bytes = string

type_synonym handler = nat

datatype go_error = Error string

record world =
  calls :: "(handler \<times> bytes) list"
  stdout :: "string list"

definition invoke :: "handler \<Rightarrow> bytes \<Rightarrow> world \<Rightarrow> world" where
  "invoke h b w = w\<lparr>calls := calls w @ [(h, b)]\<rparr>"

section \<open>The zapcore vocabulary the sinks are written against\<close>

text \<open>
  \<^verbatim>\<open>zapcore.Level\<close> is an \<^verbatim>\<open>int8\<close>; its constants are \<^verbatim>\<open>DebugLevel = -1\<close>, then
  \<^verbatim>\<open>InfoLevel\<close>, \<^verbatim>\<open>WarnLevel\<close>, \<^verbatim>\<open>ErrorLevel\<close>, \<^verbatim>\<open>DPanicLevel\<close>, \<^verbatim>\<open>PanicLevel\<close>, \<^verbatim>\<open>FatalLevel\<close>
  counting up from 0. A level enabler built by \<^verbatim>\<open>zap.NewAtomicLevelAt(l)\<close> enables the
  levels that are at least \<^verbatim>\<open>l\<close> in the signed order; the sources never change it after
  construction, so it is modelled by the level it holds.
\<close>

type_synonym Level = "8 word"

definition DebugLevel :: Level where "DebugLevel = - 1"
definition InfoLevel :: Level where "InfoLevel = 0"
definition WarnLevel :: Level where "WarnLevel = 1"
definition ErrorLevel :: Level where "ErrorLevel = 2"
definition DPanicLevel :: Level where "DPanicLevel = 3"
definition PanicLevel :: Level where "PanicLevel = 4"
definition FatalLevel :: Level where "FatalLevel = 5"

definition AtomicLevel_Enabled :: "Level \<Rightarrow> Level \<Rightarrow> bool" where
  "AtomicLevel_Enabled lvl l = word_sle lvl l"

datatype FieldType =
    UnknownType | ArrayMarshalerType | ObjectMarshalerType | BinaryType | BoolType
  | ByteStringType | Complex128Type | Complex64Type | DurationType | Float64Type
  | Float32Type | Int64Type | Int32Type | Int16Type | Int8Type | StringType | TimeType
  | TimeFullType | Uint64Type | Uint32Type | Uint16Type | Uint8Type | UintptrType
  | ReflectType | NamespaceType | StringerType | ErrorType | SkipType
  | InlineMarshalerType

record Field =
  Field_Key :: string
  Field_Type :: FieldType
  Field_Integer :: int
  Field_String :: string

type_synonym Time = nat

record EntryCaller =
  EntryCaller_Defined :: bool
  EntryCaller_File :: string
  EntryCaller_Line :: int

record Entry =
  Entry_Level :: Level
  Entry_Time :: Time
  Entry_Message :: string
  Entry_Caller :: EntryCaller

section \<open>JSON documents and the library functions taken as parameters\<close>

text \<open>
  The structs handed to \<^verbatim>\<open>json.Marshal\<close> are flat: string and integer members under the
  keys their struct tags give. The document is built here from the struct tags of the
  sources; its serialisation to bytes, which may report an error, belongs to
  \<^verbatim>\<open>encoding/json\<close> and is a parameter, as are the other library functions the sources
  call (\<^verbatim>\<open>time.Time.Format(time.DateTime)\<close>, \<^verbatim>\<open>EntryCaller.TrimmedPath\<close>,
  \<^verbatim>\<open>strings.TrimSpace\<close>, \<^verbatim>\<open>zapcore.ParseLevel\<close>) and the console encoder's rendering of
  a record. The decoder \<^verbatim>\<open>json.Unmarshal\<close> into a \<^verbatim>\<open>zapLog\<close>, which only the legacy writer
  calls, is an argument of that writer.
\<close>

datatype jvalue = JString string | JNumber int

type_synonym jobject = "(string \<times> jvalue) list"

record zapLog =
  zapLog_Level :: string
  zapLog_CreatedAt :: string
  zapLog_Path :: string
  zapLog_Message :: string
  zapLog_TraceId :: string

record Lib =
  json_encode :: "jobject \<Rightarrow> bytes option"
  Time_Format_DateTime :: "Time \<Rightarrow> string"
  EntryCaller_TrimmedPath :: "EntryCaller \<Rightarrow> string"
  strings_TrimSpace :: "string \<Rightarrow> string"
  zapcore_ParseLevel :: "string \<Rightarrow> Level option"
  console_render :: "Entry \<Rightarrow> Field list \<Rightarrow> string"

section \<open>internal: the remote core\<close>

record remoteLog =
  remoteLog_Path :: string
  remoteLog_Level :: int
  remoteLog_Content :: string
  remoteLog_TraceId :: string
  remoteLog_CreatedAt :: string

definition remoteLog_json :: "remoteLog \<Rightarrow> jobject" where
  "remoteLog_json r =
     [(''Path'', JString (remoteLog_Path r)),
      (''Level'', JNumber (remoteLog_Level r)),
      (''Content'', JString (remoteLog_Content r)),
      (''TraceId'', JString (remoteLog_TraceId r)),
      (''CreatedAt'', JString (remoteLog_CreatedAt r))]"

record remoteCore =
  remoteCore_level :: Level
  remoteCore_handle :: "handler option"
  remoteCore_fields :: "Field list"

definition NewRemoteCore :: "Level \<Rightarrow> handler option \<Rightarrow> remoteCore" where
  "NewRemoteCore level handle =
     \<lparr>remoteCore_level = level, remoteCore_handle = handle, remoteCore_fields = []\<rparr>"

definition remoteCore_Enabled :: "remoteCore \<Rightarrow> Level \<Rightarrow> bool" where
  "remoteCore_Enabled c level = AtomicLevel_Enabled (remoteCore_level c) level"

text \<open>
  \<^verbatim>\<open>With\<close> on values: the struct is copied and its field list replaced by a fresh
  concatenation. The same function over an explicit heap of slices is
  \<open>remoteCore_With_mem\<close> below.
\<close>

definition remoteCore_With :: "remoteCore \<Rightarrow> Field list \<Rightarrow> remoteCore" where
  "remoteCore_With c flds =
     (if length flds = 0 then c
      else c\<lparr>remoteCore_fields := ([] @ remoteCore_fields c) @ flds\<rparr>)"

definition levelToInt :: "Level \<Rightarrow> int" where
  "levelToInt level =
     (if level = InfoLevel then 1
      else if level = WarnLevel then 3
      else if level = ErrorLevel then 4
      else if level = PanicLevel then 5
      else if level = DebugLevel then 6
      else 0)"

text \<open>The loop of \<^verbatim>\<open>Write\<close> that looks for the trace id, leaving at the first match.\<close>

fun scanTraceId :: "Field list \<Rightarrow> string" where
  "scanTraceId [] = ''''"
| "scanTraceId (f # fs) =
     (if (Field_Key f = ''trace_id'' \<or> Field_Key f = ''TraceId'') \<and> Field_Type f = StringType
      then Field_String f
      else scanTraceId fs)"

text \<open>The struct literal that \<^verbatim>\<open>Write\<close> passes to \<^verbatim>\<open>json.Marshal\<close>.\<close>

definition remoteCore_envelope :: "Lib \<Rightarrow> remoteCore \<Rightarrow> Entry \<Rightarrow> Field list \<Rightarrow> remoteLog" where
  "remoteCore_envelope lib c entry flds =
     (let allFields = (if length (remoteCore_fields c) \<noteq> 0
                       then ([] @ remoteCore_fields c) @ flds
                       else flds);
          traceId = scanTraceId allFields;
          path = (if EntryCaller_Defined (Entry_Caller entry)
                  then EntryCaller_TrimmedPath lib (Entry_Caller entry)
                  else '''')
      in \<lparr>remoteLog_Path = path,
          remoteLog_Level = levelToInt (Entry_Level entry),
          remoteLog_Content = Entry_Message entry,
          remoteLog_TraceId = traceId,
          remoteLog_CreatedAt = Time_Format_DateTime lib (Entry_Time entry)\<rparr>)"

definition remoteCore_Write ::
    "Lib \<Rightarrow> remoteCore \<Rightarrow> Entry \<Rightarrow> Field list \<Rightarrow> world \<Rightarrow> world \<times> go_error option" where
  "remoteCore_Write lib c entry flds w =
     (case remoteCore_handle c of
        None \<Rightarrow> (w, None)
      | Some h \<Rightarrow>
          (case json_encode lib (remoteLog_json (remoteCore_envelope lib c entry flds)) of
             Some b \<Rightarrow> (invoke h b w, None)
           | None \<Rightarrow> (w, None)))"

section \<open>logger: the legacy writer and its level table\<close>

definition levelToInt_string :: "string \<Rightarrow> int" where
  "levelToInt_string level =
     (if level = ''info'' then 1
      else if level = ''warn'' then 3
      else if level = ''error'' then 4
      else if level = ''panic'' then 5
      else if level = ''debug'' then 6
      else 0)"

record outputLog =
  outputLog_Path :: string
  outputLog_Level :: int
  outputLog_Content :: string
  outputLog_TraceId :: string
  outputLog_CreatedAt :: string

definition outputLog_json :: "outputLog \<Rightarrow> jobject" where
  "outputLog_json r =
     [(''Path'', JString (outputLog_Path r)),
      (''Level'', JNumber (outputLog_Level r)),
      (''Content'', JString (outputLog_Content r)),
      (''TraceId'', JString (outputLog_TraceId r)),
      (''CreatedAt'', JString (outputLog_CreatedAt r))]"

record Conf =
  Conf_Console :: bool
  Conf_Remote :: bool
  Conf_Level :: string
  Conf_handle :: "handler option"

definition outputLog_of :: "zapLog \<Rightarrow> outputLog" where
  "outputLog_of data =
     \<lparr>outputLog_Path = zapLog_Path data,
      outputLog_Level = levelToInt_string (zapLog_Level data),
      outputLog_Content = zapLog_Message data,
      outputLog_TraceId = zapLog_TraceId data,
      outputLog_CreatedAt = zapLog_CreatedAt data\<rparr>"

definition Conf_Write ::
    "Lib \<Rightarrow> (bytes \<Rightarrow> zapLog option) \<Rightarrow> Conf option \<Rightarrow> bytes \<Rightarrow> world
       \<Rightarrow> world \<times> int \<times> go_error option" where
  "Conf_Write lib json_Unmarshal c b w =
     (case c of
        None \<Rightarrow> (w, int (length b), None)
      | Some conf \<Rightarrow>
          (case Conf_handle conf of
             None \<Rightarrow> (w, int (length b), None)
           | Some h \<Rightarrow>
               (case json_Unmarshal b of
                  None \<Rightarrow> (invoke h b w, int (length b), None)
                | Some data \<Rightarrow>
                    (case json_encode lib (outputLog_json (outputLog_of data)) of
                       None \<Rightarrow> (invoke h b w, int (length b), None)
                     | Some out \<Rightarrow> (invoke h out w, int (length b), None)))))"

section \<open>internal: the console core\<close>

text \<open>
  Modelled from the spec: \<^verbatim>\<open>internal.NewConsoleCore\<close> is called by \<^verbatim>\<open>New\<close> and its file is
  not among the sources. The spec describes the console sink as a thin pass-through to a
  human-readable renderer, gated by the shared minimum severity: its write renders the
  record to standard output and calls no delivery callback.
\<close>

record consoleCore =
  consoleCore_level :: Level
  consoleCore_fields :: "Field list"

definition NewConsoleCore :: "Level \<Rightarrow> consoleCore" where
  "NewConsoleCore level = \<lparr>consoleCore_level = level, consoleCore_fields = []\<rparr>"

definition consoleCore_Write ::
    "Lib \<Rightarrow> consoleCore \<Rightarrow> Entry \<Rightarrow> Field list \<Rightarrow> world \<Rightarrow> world \<times> go_error option" where
  "consoleCore_Write lib c entry flds w =
     (w\<lparr>stdout := stdout w @ [console_render lib entry (consoleCore_fields c @ flds)]\<rparr>, None)"

section \<open>The logging entry point\<close>

text \<open>
  A \<^verbatim>\<open>zap.Logger\<close> over \<^verbatim>\<open>zapcore.NewTee(cores...)\<close> is the list of its cores, in the order
  they were added, and whether it records the caller; \<^verbatim>\<open>zap.NewNop()\<close> has no core.
  Emitting a record builds the entry and offers it to each core in order: a core whose
  \<^verbatim>\<open>Enabled\<close> accepts the level has its \<^verbatim>\<open>Write\<close> called with the entry and the call-site
  fields. The clock reading and the caller's location come from the runtime and are
  arguments. After the sinks have been written the engine takes its terminal action,
  whether or not any core was enabled: it panics after a record at \<^verbatim>\<open>PanicLevel\<close>, exits
  the process after one at \<^verbatim>\<open>FatalLevel\<close>, panics after one at \<^verbatim>\<open>DPanicLevel\<close> when the
  logger is in development mode, and returns otherwise. Neither \<^verbatim>\<open>zap.NewNop()\<close> nor
  \<^verbatim>\<open>zap.New(core, zap.AddCaller())\<close> is in development mode.
\<close>

datatype Core = ConsoleCore consoleCore | RemoteCore remoteCore

fun Core_Enabled :: "Core \<Rightarrow> Level \<Rightarrow> bool" where
  "Core_Enabled (ConsoleCore c) level = AtomicLevel_Enabled (consoleCore_level c) level"
| "Core_Enabled (RemoteCore c) level = remoteCore_Enabled c level"

fun Core_With :: "Core \<Rightarrow> Field list \<Rightarrow> Core" where
  "Core_With (ConsoleCore c) flds = ConsoleCore (c\<lparr>consoleCore_fields := consoleCore_fields c @ flds\<rparr>)"
| "Core_With (RemoteCore c) flds = RemoteCore (remoteCore_With c flds)"

fun Core_Write :: "Lib \<Rightarrow> Core \<Rightarrow> Entry \<Rightarrow> Field list \<Rightarrow> world \<Rightarrow> world \<times> go_error option" where
  "Core_Write lib (ConsoleCore c) entry flds w = consoleCore_Write lib c entry flds w"
| "Core_Write lib (RemoteCore c) entry flds w = remoteCore_Write lib c entry flds w"

fun Core_level :: "Core \<Rightarrow> Level" where
  "Core_level (ConsoleCore c) = consoleCore_level c"
| "Core_level (RemoteCore c) = remoteCore_level c"

fun is_RemoteCore :: "Core \<Rightarrow> bool" where
  "is_RemoteCore (ConsoleCore c) = False"
| "is_RemoteCore (RemoteCore c) = True"

record Logger =
  Logger_cores :: "Core list"
  Logger_addCaller :: bool
  Logger_development :: bool

definition zap_NewNop :: Logger where
  "zap_NewNop = \<lparr>Logger_cores = [], Logger_addCaller = False, Logger_development = False\<rparr>"

definition zap_New_Tee_AddCaller :: "Core list \<Rightarrow> Logger" where
  "zap_New_Tee_AddCaller cores =
     \<lparr>Logger_cores = cores, Logger_addCaller = True, Logger_development = False\<rparr>"

definition undefined_caller :: EntryCaller where
  "undefined_caller = \<lparr>EntryCaller_Defined = False, EntryCaller_File = '''', EntryCaller_Line = 0\<rparr>"

definition Logger_entry :: "Logger \<Rightarrow> Level \<Rightarrow> string \<Rightarrow> Time \<Rightarrow> EntryCaller \<Rightarrow> Entry" where
  "Logger_entry lg level msg now caller =
     \<lparr>Entry_Level = level, Entry_Time = now, Entry_Message = msg,
      Entry_Caller = (if Logger_addCaller lg then caller else undefined_caller)\<rparr>"

text \<open>The fan-out of one record to the cores, in order.\<close>

definition Logger_write ::
    "Lib \<Rightarrow> Logger \<Rightarrow> Level \<Rightarrow> string \<Rightarrow> Time \<Rightarrow> EntryCaller \<Rightarrow> Field list \<Rightarrow> world \<Rightarrow> world" where
  "Logger_write lib lg level msg now caller flds w =
     fold (\<lambda>core w'. if Core_Enabled core level
                      then fst (Core_Write lib core (Logger_entry lg level msg now caller) flds w')
                      else w')
          (Logger_cores lg) w"

text \<open>How an emit call ends for its caller.\<close>

datatype outcome = Returns | Panics | Exits

definition terminal_action :: "Logger \<Rightarrow> Level \<Rightarrow> outcome" where
  "terminal_action lg level =
     (if level = PanicLevel then Panics
      else if level = FatalLevel then Exits
      else if level = DPanicLevel \<and> Logger_development lg then Panics
      else Returns)"

text \<open>One emit call: the world after the sinks were written, and how the call ends.\<close>

definition Logger_log ::
    "Lib \<Rightarrow> Logger \<Rightarrow> Level \<Rightarrow> string \<Rightarrow> Time \<Rightarrow> EntryCaller \<Rightarrow> Field list \<Rightarrow> world
       \<Rightarrow> world \<times> outcome" where
  "Logger_log lib lg level msg now caller flds w =
     (Logger_write lib lg level msg now caller flds w, terminal_action lg level)"

definition Logger_With :: "Logger \<Rightarrow> Field list \<Rightarrow> Logger" where
  "Logger_With lg flds =
     (if length flds = 0 then lg
      else lg\<lparr>Logger_cores := map (\<lambda>core. Core_With core flds) (Logger_cores lg)\<rparr>)"

section \<open>logger: the constructor\<close>

text \<open>
  \<^verbatim>\<open>New\<close> as in \<^verbatim>\<open>logger.go\<close> (the version with \<^verbatim>\<open>effectiveHandle\<close>). It stores the
  effective callback in the configuration it was given, so the configuration is returned
  with the logger; a \<^verbatim>\<open>nil\<close> configuration is \<^term>\<open>None\<close>.
\<close>

definition New :: "Lib \<Rightarrow> Conf option \<Rightarrow> handler option \<Rightarrow> Logger \<times> Conf option" where
  "New lib conf handle =
     (case conf of
        None \<Rightarrow> (zap_NewNop, None)
      | Some cf \<Rightarrow>
          (let effectiveHandle = (if handle = None then Conf_handle cf else handle);
               cf' = cf\<lparr>Conf_handle := effectiveHandle\<rparr>;
               level = (if strings_TrimSpace lib (Conf_Level cf') \<noteq> ''''
                        then (case zapcore_ParseLevel lib (strings_TrimSpace lib (Conf_Level cf')) of
                                Some parsed \<Rightarrow> parsed
                              | None \<Rightarrow> InfoLevel)
                        else InfoLevel);
               cores0 = [];
               cores1 = (if Conf_Console cf' then cores0 @ [ConsoleCore (NewConsoleCore level)]
                         else cores0);
               cores2 = (if Conf_Remote cf' \<and> effectiveHandle \<noteq> None
                         then cores1 @ [RemoteCore (NewRemoteCore level effectiveHandle)]
                         else cores1)
           in if length cores2 = 0 then (zap_NewNop, Some cf')
              else (zap_New_Tee_AddCaller cores2, Some cf')))"

text \<open>
  \<^verbatim>\<open>New\<close> as in the unnamed source file that also holds \<^verbatim>\<open>Conf.Write\<close>: the argument
  replaces the stored callback only where a callback is already stored, the remote core
  is gated on the stored callback and built over the argument.
\<close>

definition New_part_004 :: "Lib \<Rightarrow> Conf option \<Rightarrow> handler option \<Rightarrow> Logger \<times> Conf option" where
  "New_part_004 lib conf handle =
     (case conf of
        None \<Rightarrow> (zap_NewNop, None)
      | Some cf \<Rightarrow>
          (let cf' = (if Conf_handle cf \<noteq> None then cf\<lparr>Conf_handle := handle\<rparr> else cf);
               level = (if strings_TrimSpace lib (Conf_Level cf') \<noteq> ''''
                        then (case zapcore_ParseLevel lib (strings_TrimSpace lib (Conf_Level cf')) of
                                Some parsed \<Rightarrow> parsed
                              | None \<Rightarrow> InfoLevel)
                        else InfoLevel);
               cores0 = [];
               cores1 = (if Conf_Console cf' then cores0 @ [ConsoleCore (NewConsoleCore level)]
                         else cores0);
               cores2 = (if Conf_Remote cf' \<and> Conf_handle cf' \<noteq> None
                         then cores1 @ [RemoteCore (NewRemoteCore level handle)]
                         else cores1)
           in if length cores2 = 0 then (zap_NewNop, Some cf')
              else (zap_New_Tee_AddCaller cores2, Some cf')))"

section \<open>logger: the asynchronous relay\<close>

text \<open>
  The channel \<^verbatim>\<open>make(chan []byte, size)\<close> is its buffer (oldest payload first), its
  capacity, and the state of the one goroutine that receives from it: \<open>Running\<close> (not
  at the receive), \<open>Parked\<close> (blocked in the receive of \<^verbatim>\<open>range l.queue\<close> on an empty
  buffer) or \<open>Received b\<close> (holding a payload whose \<^verbatim>\<open>handle\<close> call has not returned).
  A send in a \<^verbatim>\<open>select\<close> with a \<^verbatim>\<open>default\<close> branch goes through when a receiver is parked
  (the payload is handed to it) or the buffer has room, and otherwise the default branch
  is taken. \<^verbatim>\<open>make\<close> panics on a negative size.
\<close>

datatype consumer = Running | Parked | Received bytes

record AsyncLogger =
  AsyncLogger_queue :: "bytes list"
  AsyncLogger_size :: nat
  AsyncLogger_handle :: "handler option"
  AsyncLogger_consumer :: consumer

definition NewAsyncLogger :: "int \<Rightarrow> handler option \<Rightarrow> AsyncLogger option" where
  "NewAsyncLogger sz handle =
     (if sz < 0 then None
      else Some \<lparr>AsyncLogger_queue = [], AsyncLogger_size = nat sz,
                 AsyncLogger_handle = handle, AsyncLogger_consumer = Running\<rparr>)"

text \<open>One move of the goroutine running \<^verbatim>\<open>init\<close>.\<close>

definition AsyncLogger_init_step :: "AsyncLogger \<Rightarrow> world \<Rightarrow> AsyncLogger \<times> world" where
  "AsyncLogger_init_step l w =
     (case AsyncLogger_consumer l of
        Running \<Rightarrow>
          (case AsyncLogger_queue l of
             [] \<Rightarrow> (l\<lparr>AsyncLogger_consumer := Parked\<rparr>, w)
           | b # rest \<Rightarrow> (l\<lparr>AsyncLogger_queue := rest, AsyncLogger_consumer := Received b\<rparr>, w))
      | Parked \<Rightarrow> (l, w)
      | Received b \<Rightarrow>
          (case AsyncLogger_handle l of
             None \<Rightarrow> (l\<lparr>AsyncLogger_consumer := Running\<rparr>, w)
           | Some h \<Rightarrow> (l\<lparr>AsyncLogger_consumer := Running\<rparr>, invoke h b w)))"

definition AsyncLogger_Write :: "AsyncLogger \<Rightarrow> bytes \<Rightarrow> AsyncLogger \<times> int \<times> go_error option" where
  "AsyncLogger_Write l p =
     (let item = [] @ p in
      if AsyncLogger_consumer l = Parked
      then (l\<lparr>AsyncLogger_consumer := Received item\<rparr>, int (length p), None)
      else if length (AsyncLogger_queue l) < AsyncLogger_size l
      then (l\<lparr>AsyncLogger_queue := AsyncLogger_queue l @ [item]\<rparr>, int (length p), None)
      else (l, int (length p), None))"

text \<open>
  The send cannot go through: the buffer holds as many payloads as its capacity and no
  receiver is parked.
\<close>

definition AsyncLogger_full :: "AsyncLogger \<Rightarrow> bool" where
  "AsyncLogger_full l =
     (AsyncLogger_consumer l \<noteq> Parked \<and> AsyncLogger_size l \<le> length (AsyncLogger_queue l))"

text \<open>The receiver parks on an empty buffer only, and the buffer never exceeds its capacity.\<close>

definition AsyncLogger_inv :: "AsyncLogger \<Rightarrow> bool" where
  "AsyncLogger_inv l =
     (length (AsyncLogger_queue l) \<le> AsyncLogger_size l
      \<and> (if AsyncLogger_consumer l = Parked then AsyncLogger_queue l = [] else True))"

text \<open>
  The relay with its producers and its consumer as a state machine. An event is a call
  of \<^verbatim>\<open>Write\<close> by some producer or a move of the goroutine running \<^verbatim>\<open>init\<close>; a schedule is
  any list of events. A channel operation is one atomic step, and so is the call of
  \<^verbatim>\<open>handle\<close> by the consumer, which does nothing else until the call has returned. Beside
  the relay and the world, the state keeps the payloads whose send went through, in the
  order of the sends: these are the payloads that were enqueued.
\<close>

datatype relay_event = Produce bytes | Consume

record relay =
  relay_logger :: AsyncLogger
  relay_world :: world
  relay_accepted :: "bytes list"

definition relay_start :: "AsyncLogger \<Rightarrow> world \<Rightarrow> relay" where
  "relay_start l w = \<lparr>relay_logger = l, relay_world = w, relay_accepted = []\<rparr>"

fun relay_step :: "relay_event \<Rightarrow> relay \<Rightarrow> relay" where
  "relay_step (Produce p) s =
     s\<lparr>relay_logger := fst (AsyncLogger_Write (relay_logger s) p),
       relay_accepted := (if AsyncLogger_full (relay_logger s) then relay_accepted s
                          else relay_accepted s @ [p])\<rparr>"
| "relay_step Consume s =
     s\<lparr>relay_logger := fst (AsyncLogger_init_step (relay_logger s) (relay_world s)),
       relay_world := snd (AsyncLogger_init_step (relay_logger s) (relay_world s))\<rparr>"

definition relay_run :: "relay_event list \<Rightarrow> relay \<Rightarrow> relay" where
  "relay_run evs s = fold relay_step evs s"

text \<open>The payload the consumer holds between its receive and the return of \<^verbatim>\<open>handle\<close>.\<close>

definition in_flight :: "AsyncLogger \<Rightarrow> bytes list" where
  "in_flight l = (case AsyncLogger_consumer l of Received b \<Rightarrow> [b] | Running \<Rightarrow> [] | Parked \<Rightarrow> [])"

text \<open>The payloads that are enqueued and not yet delivered, oldest first.\<close>

definition relay_pending :: "relay \<Rightarrow> bytes list" where
  "relay_pending s = in_flight (relay_logger s) @ AsyncLogger_queue (relay_logger s)"

text \<open>
  The invariant of the state machine for a relay over the callback \<open>h\<close>, started in a
  world whose callback trace was \<open>base\<close>: the invocations made so far, followed by the
  pending payloads, are the enqueued payloads in the order of their sends, all under \<open>h\<close>.
\<close>

definition relay_fifo :: "handler \<Rightarrow> (handler \<times> bytes) list \<Rightarrow> relay \<Rightarrow> bool" where
  "relay_fifo h base s =
     (AsyncLogger_handle (relay_logger s) = Some h
      \<and> AsyncLogger_inv (relay_logger s)
      \<and> calls (relay_world s) @ map (Pair h) (relay_pending s)
          = base @ map (Pair h) (relay_accepted s))"

text \<open>The number of consumer moves after which nothing is pending.\<close>

definition relay_needed :: "AsyncLogger \<Rightarrow> nat" where
  "relay_needed l = 2 * length (AsyncLogger_queue l) + length (in_flight l)"

section \<open>internal: \<^verbatim>\<open>With\<close> over a memory of slices and core objects\<close>

text \<open>
  A Go slice is a view \<^verbatim>\<open>(array, len, cap)\<close> of a backing array; \<^verbatim>\<open>nil\<close> has no array and
  zero length and capacity. \<^verbatim>\<open>append(s, xs...)\<close> writes behind the end of \<^verbatim>\<open>s\<close> into the
  same array when the capacity allows it, so that two slices over one array can
  overwrite each other's elements, and otherwise copies into a newly allocated array.
  The capacity of a new array is chosen by the runtime: it is at least the length
  needed, and the policy is a parameter. A \<^verbatim>\<open>*remoteCore\<close> is the address of an object
  whose \<^verbatim>\<open>fields\<close> member is a slice. Addresses are handed out in increasing order.
\<close>

record slice =
  slice_array :: "nat option"
  slice_len :: nat
  slice_cap :: nat

definition nil_slice :: slice where
  "nil_slice = \<lparr>slice_array = None, slice_len = 0, slice_cap = 0\<rparr>"

record remoteCore_obj =
  obj_level :: Level
  obj_handle :: "handler option"
  obj_fields :: slice

record mem =
  mem_arrays :: "nat \<Rightarrow> Field list"
  mem_next_array :: nat
  mem_cores :: "nat \<Rightarrow> remoteCore_obj"
  mem_next_core :: nat

definition zero_Field :: Field where
  "zero_Field = \<lparr>Field_Key = '''', Field_Type = UnknownType, Field_Integer = 0, Field_String = ''''\<rparr>"

definition slice_elems :: "mem \<Rightarrow> slice \<Rightarrow> Field list" where
  "slice_elems m s =
     (case slice_array s of
        None \<Rightarrow> []
      | Some a \<Rightarrow> take (slice_len s) (mem_arrays m a))"

definition go_append :: "(nat \<Rightarrow> nat \<Rightarrow> nat) \<Rightarrow> mem \<Rightarrow> slice \<Rightarrow> Field list \<Rightarrow> mem \<times> slice" where
  "go_append grow m s xs =
     (let n = slice_len s + length xs in
      if n \<le> slice_cap s
      then (case slice_array s of
              None \<Rightarrow> (m, s)
            | Some a \<Rightarrow>
                (m\<lparr>mem_arrays := (mem_arrays m)
                      (a := take (slice_len s) (mem_arrays m a) @ xs @ drop n (mem_arrays m a))\<rparr>,
                 s\<lparr>slice_len := n\<rparr>))
      else (let c = max n (grow (slice_cap s) n);
                a = mem_next_array m
            in (m\<lparr>mem_arrays := (mem_arrays m)
                      (a := slice_elems m s @ xs @ replicate (c - n) zero_Field),
                   mem_next_array := Suc a\<rparr>,
                \<lparr>slice_array = Some a, slice_len = n, slice_cap = c\<rparr>)))"

text \<open>
  \<^verbatim>\<open>With\<close> on the core at address \<open>c\<close>, given the caller's slice: the receiver itself for
  an empty slice; otherwise a copy of the struct, stored at a new address, whose
  \<^verbatim>\<open>fields\<close> is \<^verbatim>\<open>append(append([]zapcore.Field(nil), c.fields...), fields...)\<close>.
\<close>

definition remoteCore_With_mem :: "(nat \<Rightarrow> nat \<Rightarrow> nat) \<Rightarrow> mem \<Rightarrow> nat \<Rightarrow> slice \<Rightarrow> mem \<times> nat" where
  "remoteCore_With_mem grow m c flds =
     (if slice_len flds = 0 then (m, c)
      else (let next = mem_cores m c;
                (m1, s1) = go_append grow m nil_slice (slice_elems m (obj_fields (mem_cores m c)));
                (m2, s2) = go_append grow m1 s1 (slice_elems m1 flds);
                p = mem_next_core m2
            in (m2\<lparr>mem_cores := (mem_cores m2)(p := next\<lparr>obj_fields := s2\<rparr>),
                   mem_next_core := Suc p\<rparr>, p)))"

text \<open>The standing fields of the core at an address, and the core as a value.\<close>

definition core_fields :: "mem \<Rightarrow> nat \<Rightarrow> Field list" where
  "core_fields m p = slice_elems m (obj_fields (mem_cores m p))"

definition core_value :: "mem \<Rightarrow> nat \<Rightarrow> remoteCore" where
  "core_value m p =
     \<lparr>remoteCore_level = obj_level (mem_cores m p),
      remoteCore_handle = obj_handle (mem_cores m p),
      remoteCore_fields = core_fields m p\<rparr>"

text \<open>
  A slice is well formed in a memory when its length is within its capacity and its
  array, if any, is allocated and at least as long as the capacity; a memory is well
  formed when the field slice of every allocated core is.
\<close>

definition slice_ok :: "mem \<Rightarrow> slice \<Rightarrow> bool" where
  "slice_ok m s =
     (slice_len s \<le> slice_cap s
      \<and> (case slice_array s of
           None \<Rightarrow> slice_cap s = 0
         | Some a \<Rightarrow> a < mem_next_array m \<and> slice_cap s \<le> length (mem_arrays m a)))"

definition mem_ok :: "mem \<Rightarrow> bool" where
  "mem_ok m = list_all (\<lambda>p. slice_ok m (obj_fields (mem_cores m p))) [0..<mem_next_core m]"

section \<open>A reference instance of the library parameters\<close>

text \<open>
  The theorems below hold for every instance of the library parameters. Concrete runs
  use this one: a printer of flat JSON objects (for strings that need no escaping), a
  fixed clock rendering, the file and line of the caller, trimming of ASCII white space
  and the lower-case level names.
\<close>

definition digit_char :: "nat \<Rightarrow> char" where
  "digit_char d = ''0123456789'' ! d"

fun nat_digits :: "nat \<Rightarrow> string" where
  "nat_digits n = (if n < 10 then [digit_char n] else nat_digits (n div 10) @ [digit_char (n mod 10)])"

definition int_digits :: "int \<Rightarrow> string" where
  "int_digits i = (if i < 0 then CHR ''-'' # nat_digits (nat (- i)) else nat_digits (nat i))"

fun jvalue_render :: "jvalue \<Rightarrow> string" where
  "jvalue_render (JString s) = CHR 0x22 # s @ [CHR 0x22]"
| "jvalue_render (JNumber i) = int_digits i"

fun jobject_members :: "jobject \<Rightarrow> string" where
  "jobject_members [] = []"
| "jobject_members [(k, v)] = CHR 0x22 # k @ [CHR 0x22] @ '':'' @ jvalue_render v"
| "jobject_members ((k, v) # rest) =
     CHR 0x22 # k @ [CHR 0x22] @ '':'' @ jvalue_render v @ '','' @ jobject_members rest"

definition json_render :: "jobject \<Rightarrow> bytes" where
  "json_render obj = ''{'' @ jobject_members obj @ ''}''"

definition is_space :: "char \<Rightarrow> bool" where
  "is_space c = (c \<in> set [CHR '' '', CHR 0x09, CHR 0x0A, CHR 0x0B, CHR 0x0C, CHR 0x0D])"

definition ascii_TrimSpace :: "string \<Rightarrow> string" where
  "ascii_TrimSpace s = rev (dropWhile is_space (rev (dropWhile is_space s)))"

definition lower_ParseLevel :: "string \<Rightarrow> Level option" where
  "lower_ParseLevel s =
     (if s = ''debug'' then Some DebugLevel
      else if s = ''info'' then Some InfoLevel
      else if s = ''warn'' then Some WarnLevel
      else if s = ''error'' then Some ErrorLevel
      else if s = ''dpanic'' then Some DPanicLevel
      else if s = ''panic'' then Some PanicLevel
      else if s = ''fatal'' then Some FatalLevel
      else None)"

definition lib0 :: Lib where
  "lib0 =
     \<lparr>json_encode = (\<lambda>obj. Some (json_render obj)),
      Time_Format_DateTime = (\<lambda>t. ''2006-01-02 15:04:05''),
      EntryCaller_TrimmedPath = (\<lambda>c. EntryCaller_File c @ '':'' @ int_digits (EntryCaller_Line c)),
      strings_TrimSpace = ascii_TrimSpace,
      zapcore_ParseLevel = lower_ParseLevel,
      console_render = (\<lambda>entry flds. Entry_Message entry)\<rparr>"

definition world0 :: world where
  "world0 = \<lparr>calls = [], stdout = []\<rparr>"

definition caller0 :: EntryCaller where
  "caller0 = \<lparr>EntryCaller_Defined = True, EntryCaller_File = ''app/main.go'', EntryCaller_Line = 7\<rparr>"

definition String_field :: "string \<Rightarrow> string \<Rightarrow> Field" where
  "String_field key val =
     \<lparr>Field_Key = key, Field_Type = StringType, Field_Integer = 0, Field_String = val\<rparr>"

definition Bool_field :: "string \<Rightarrow> bool \<Rightarrow> Field" where
  "Bool_field key val =
     \<lparr>Field_Key = key, Field_Type = BoolType, Field_Integer = (if val then 1 else 0),
      Field_String = ''''\<rparr>"

text \<open>
  A memory for concrete runs: one core whose field slice has one element and spare
  capacity for a second, and two one-element slices of a caller.
\<close>

definition mem0 :: mem where
  "mem0 =
     \<lparr>mem_arrays = (\<lambda>a. [])
        (0 := [String_field ''service'' ''x'', zero_Field],
         1 := [String_field ''trace_id'' ''t1''],
         2 := [String_field ''trace_id'' ''t2'']),
      mem_next_array = 3,
      mem_cores = (\<lambda>p. \<lparr>obj_level = InfoLevel, obj_handle = Some 1,
                          obj_fields = \<lparr>slice_array = Some 0, slice_len = 1, slice_cap = 2\<rparr>\<rparr>),
      mem_next_core = 1\<rparr>"

definition arg1 :: slice where
  "arg1 = \<lparr>slice_array = Some 1, slice_len = 1, slice_cap = 1\<rparr>"

definition arg2 :: slice where
  "arg2 = \<lparr>slice_array = Some 2, slice_len = 1, slice_cap = 1\<rparr>"

definition grow_spare :: "nat \<Rightarrow> nat \<Rightarrow> nat" where
  "grow_spare c n = n + 2"

text \<open>A relay of capacity one over the callback 1, and a schedule of it.\<close>

definition relay0 :: AsyncLogger where
  "relay0 = \<lparr>AsyncLogger_queue = [], AsyncLogger_size = 1, AsyncLogger_handle = Some 1,
             AsyncLogger_consumer = Running\<rparr>"

definition schedule0 :: "relay_event list" where
  "schedule0 = [Produce ''a'', Produce ''b'', Consume, Produce ''c'', Consume]"

definition zapLog0 :: zapLog where
  "zapLog0 = \<lparr>zapLog_Level = ''info'', zapLog_CreatedAt = ''2006-01-02 15:04:05'',
      zapLog_Path = ''app/main.go:7'', zapLog_Message = ''hello'', zapLog_TraceId = ''''\<rparr>"

definition conf_remote :: "handler option \<Rightarrow> Conf" where
  "conf_remote h = \<lparr>Conf_Console = False, Conf_Remote = True, Conf_Level = '''', Conf_handle = h\<rparr>"

section \<open>The specification's wording of three computations\<close>

text \<open>
  The minimum severity as the specification words it: the configured string is trimmed,
  an empty or unparsable one gives info, any other one its parsed severity.
\<close>

definition spec_minimum_severity :: "Lib \<Rightarrow> string \<Rightarrow> Level" where
  "spec_minimum_severity lib s =
     (let trimmed = strings_TrimSpace lib s in
      if trimmed = '''' then InfoLevel
      else (case zapcore_ParseLevel lib trimmed of
              None \<Rightarrow> InfoLevel
            | Some parsed \<Rightarrow> parsed))"

text \<open>
  The fields the specification's trace id scan stops at: string-typed and named exactly
  \<^verbatim>\<open>trace_id\<close> or \<^verbatim>\<open>TraceId\<close>.
\<close>

definition is_trace_field :: "Field \<Rightarrow> bool" where
  "is_trace_field f =
     ((Field_Key f = ''trace_id'' \<or> Field_Key f = ''TraceId'') \<and> Field_Type f = StringType)"



section \<open>Theorems\<close>

text \<open>
  C1. The level of the envelope that the remote core encodes is the image of the
  record's severity alone (for a record emitted through an entry point, of the severity
  it was emitted at) under the table debug 6, info 1, warn 3, error 4, panic 5, every
  other severity 0; the legacy writer maps the level name it decoded through the same
  table on names.
\<close>

theorem levelToInt_table:
  "remoteLog_Level (remoteCore_envelope lib c entry flds) = levelToInt (Entry_Level entry)
   \<and> remoteLog_Level (remoteCore_envelope lib c (Logger_entry lg level msg now caller) flds)
       = levelToInt level
   \<and> outputLog_Level (outputLog_of data) = levelToInt_string (zapLog_Level data)
   \<and> levelToInt DebugLevel = 6 \<and> levelToInt InfoLevel = 1 \<and> levelToInt WarnLevel = 3
   \<and> levelToInt ErrorLevel = 4 \<and> levelToInt PanicLevel = 5
   \<and> (\<forall>l. l \<notin> {DebugLevel, InfoLevel, WarnLevel, ErrorLevel, PanicLevel} \<longrightarrow> levelToInt l = 0)
   \<and> levelToInt_string ''debug'' = 6 \<and> levelToInt_string ''info'' = 1
   \<and> levelToInt_string ''warn'' = 3 \<and> levelToInt_string ''error'' = 4
   \<and> levelToInt_string ''panic'' = 5
   \<and> (\<forall>s. s \<notin> {''debug'', ''info'', ''warn'', ''error'', ''panic''} \<longrightarrow> levelToInt_string s = 0)"
proof -
  have env: "remoteLog_Level (remoteCore_envelope lib c entry flds) = levelToInt (Entry_Level entry)"
    for entry
    by (simp add: remoteCore_envelope_def Let_def)
  have emit: "remoteLog_Level (remoteCore_envelope lib c (Logger_entry lg level msg now caller) flds)
       = levelToInt level"
    by (simp add: env Logger_entry_def)
  have legacy: "outputLog_Level (outputLog_of data) = levelToInt_string (zapLog_Level data)"
    by (simp add: outputLog_of_def)
  have tab: "levelToInt DebugLevel = 6 \<and> levelToInt InfoLevel = 1 \<and> levelToInt WarnLevel = 3
      \<and> levelToInt ErrorLevel = 4 \<and> levelToInt PanicLevel = 5"
    by (simp add: levelToInt_def DebugLevel_def InfoLevel_def WarnLevel_def ErrorLevel_def
        PanicLevel_def)
  have other: "\<forall>l. l \<notin> {DebugLevel, InfoLevel, WarnLevel, ErrorLevel, PanicLevel} \<longrightarrow> levelToInt l = 0"
    by (simp add: levelToInt_def)
  have stab: "levelToInt_string ''debug'' = 6 \<and> levelToInt_string ''info'' = 1
      \<and> levelToInt_string ''warn'' = 3 \<and> levelToInt_string ''error'' = 4
      \<and> levelToInt_string ''panic'' = 5"
    by (simp add: levelToInt_string_def)
  have sother: "\<forall>s. s \<notin> {''debug'', ''info'', ''warn'', ''error'', ''panic''} \<longrightarrow> levelToInt_string s = 0"
    by (simp add: levelToInt_string_def)
  from env [of entry] emit legacy tab other stab sother show ?thesis by blast
qed

theorem levelToInt_table_witness:
  "DPanicLevel \<notin> {DebugLevel, InfoLevel, WarnLevel, ErrorLevel, PanicLevel}
   \<and> levelToInt DPanicLevel = 0
   \<and> FatalLevel \<notin> {DebugLevel, InfoLevel, WarnLevel, ErrorLevel, PanicLevel}
   \<and> levelToInt FatalLevel = 0
   \<and> ''fatal'' \<notin> {''debug'', ''info'', ''warn'', ''error'', ''panic''}
   \<and> levelToInt_string ''fatal'' = 0
   \<and> remoteLog_Level (remoteCore_envelope lib0 (NewRemoteCore InfoLevel (Some 1))
         (Logger_entry zap_NewNop WarnLevel ''m'' 0 caller0) []) = 3"
  using levelToInt_table [of lib0 "NewRemoteCore InfoLevel (Some 1)"
      "Logger_entry zap_NewNop WarnLevel ''m'' 0 caller0" "[]" zap_NewNop WarnLevel "''m''" 0
      caller0 zapLog0]
  by (simp add: DebugLevel_def InfoLevel_def WarnLevel_def ErrorLevel_def PanicLevel_def
      DPanicLevel_def FatalLevel_def)

subsection \<open>Loggers without a remote core\<close>

lemma no_remote_log:
  "\<not> list_ex is_RemoteCore cores \<Longrightarrow>
   calls (fold (\<lambda>core w'. if Core_Enabled core level
                      then fst (Core_Write lib core entry flds w')
                      else w') cores w) = calls w"
proof (induction cores arbitrary: w)
  case Nil
  then show ?case by simp
next
  case (Cons core cores)
  then show ?case
    by (cases core) (simp_all add: consoleCore_Write_def)
qed

lemma Logger_log_no_remote:
  "\<not> list_ex is_RemoteCore (Logger_cores lg) \<Longrightarrow>
   calls (fst (Logger_log lib lg level msg now caller flds w)) = calls w"
  unfolding Logger_log_def Logger_write_def by (simp add: no_remote_log)

lemma Logger_With_no_remote:
  "\<not> list_ex is_RemoteCore (Logger_cores lg) \<Longrightarrow>
   \<not> list_ex is_RemoteCore (Logger_cores (Logger_With lg flds))"
proof -
  have "is_RemoteCore (Core_With core flds) = is_RemoteCore core" for core
    by (cases core) simp_all
  then show "\<not> list_ex is_RemoteCore (Logger_cores lg) \<Longrightarrow>
   \<not> list_ex is_RemoteCore (Logger_cores (Logger_With lg flds))"
    by (simp add: Logger_With_def list_ex_iff)
qed

lemma New_no_remote:
  assumes "Conf_Remote cf = False \<or> (handle = None \<and> Conf_handle cf = None)"
  shows "\<not> list_ex is_RemoteCore (Logger_cores (fst (New lib (Some cf) handle)))"
  using assms by (auto simp add: New_def Let_def zap_NewNop_def zap_New_Tee_AddCaller_def)

lemma New_part_004_no_remote:
  assumes "Conf_Remote cf = False \<or> (handle = None \<and> Conf_handle cf = None)"
  shows "\<not> list_ex is_RemoteCore (Logger_cores (fst (New_part_004 lib (Some cf) handle)))"
  using assms by (auto simp add: New_part_004_def Let_def zap_NewNop_def zap_New_Tee_AddCaller_def)

text \<open>
  C3. When the remote sink is disabled, or no callback is present (neither passed to the
  constructor nor stored in the configuration), the constructed entry point holds no
  remote core at all, and emitting any record through it, or through an entry point
  derived from it with standing fields, invokes no delivery callback. This holds for
  both versions of the constructor and whatever the console setting is.
\<close>

theorem New_without_callback_never_calls:
  assumes "Conf_Remote cf = False \<or> (handle = None \<and> Conf_handle cf = None)"
  shows "\<not> list_ex is_RemoteCore (Logger_cores (fst (New lib (Some cf) handle)))
     \<and> calls (fst (Logger_log lib (fst (New lib (Some cf) handle)) level msg now caller flds w)) = calls w
     \<and> calls (fst (Logger_log lib (Logger_With (fst (New lib (Some cf) handle)) std) level msg now caller flds w)) = calls w
     \<and> \<not> list_ex is_RemoteCore (Logger_cores (fst (New_part_004 lib (Some cf) handle)))
     \<and> calls (fst (Logger_log lib (fst (New_part_004 lib (Some cf) handle)) level msg now caller flds w)) = calls w
     \<and> calls (fst (Logger_log lib (Logger_With (fst (New_part_004 lib (Some cf) handle)) std) level msg now caller flds w)) = calls w"
proof -
  have a: "\<not> list_ex is_RemoteCore (Logger_cores (fst (New lib (Some cf) handle)))"
    using assms by (rule New_no_remote)
  have b: "\<not> list_ex is_RemoteCore (Logger_cores (fst (New_part_004 lib (Some cf) handle)))"
    using assms by (rule New_part_004_no_remote)
  show ?thesis
    using a b by (simp add: Logger_log_no_remote Logger_With_no_remote)
qed

theorem New_without_callback_never_calls_witness:
  "calls (fst (Logger_log lib0
           (fst (New lib0 (Some \<lparr>Conf_Console = True, Conf_Remote = True, Conf_Level = '''', Conf_handle = None\<rparr>) None))
           ErrorLevel ''boom'' 0 caller0 [] world0)) = []
   \<and> Logger_cores (fst (New lib0 (Some \<lparr>Conf_Console = False, Conf_Remote = False, Conf_Level = '''', Conf_handle = None\<rparr>) (Some 1))) = []
   \<and> calls (fst (Logger_log lib0
           (fst (New_part_004 lib0 (Some \<lparr>Conf_Console = False, Conf_Remote = False, Conf_Level = '''', Conf_handle = None\<rparr>) (Some 1)))
           ErrorLevel ''boom'' 0 caller0 [] world0)) = []"
  using New_without_callback_never_calls [of "\<lparr>Conf_Console = True, Conf_Remote = True, Conf_Level = '''', Conf_handle = None\<rparr>"
      None lib0 ErrorLevel "''boom''" 0 caller0 "[]" world0 "[]"]
    New_without_callback_never_calls [of "\<lparr>Conf_Console = False, Conf_Remote = False, Conf_Level = '''', Conf_handle = None\<rparr>"
      "Some 1" lib0 ErrorLevel "''boom''" 0 caller0 "[]" world0 "[]"]
  by (simp add: world0_def New_def Let_def zap_NewNop_def)

text \<open>
  C10, as stated, fails at the panic and fatal severities: an emit through the entry
  point returned for a nil configuration ends in a panic at \<^verbatim>\<open>PanicLevel\<close> and in the exit
  of the process at \<^verbatim>\<open>FatalLevel\<close>.
\<close>

theorem New_nil_conf_panic_emit_panics:
  "snd (Logger_log lib0 (fst (New lib0 None (Some 1))) PanicLevel ''boom'' 0 caller0 [] world0) = Panics
   \<and> snd (Logger_log lib0 (fst (New lib0 None (Some 1))) FatalLevel ''boom'' 0 caller0 [] world0) = Exits
   \<and> snd (Logger_log lib0 (fst (New_part_004 lib0 None (Some 1))) PanicLevel ''boom'' 0 caller0 [] world0) = Panics"
  by (simp add: Logger_log_def terminal_action_def PanicLevel_def FatalLevel_def)

lemma terminal_action_nop:
  "terminal_action zap_NewNop level =
     (if level = PanicLevel then Panics else if level = FatalLevel then Exits else Returns)"
  by (simp add: terminal_action_def zap_NewNop_def)

lemma Logger_With_nop: "Logger_With zap_NewNop std = zap_NewNop"
  by (simp add: Logger_With_def zap_NewNop_def)

lemma Logger_write_nop: "Logger_write lib zap_NewNop level msg now caller flds w = w"
  by (simp add: Logger_write_def zap_NewNop_def)

text \<open>
  C10, amended. Given a nil configuration, both versions of the constructor return the
  no-op entry point instead of failing. No emit through it, or through an entry point
  derived from it, invokes a delivery callback or changes the world; every emit at a
  severity other than panic and fatal returns to its caller; an emit at panic ends in the
  engine's panic and one at fatal in the exit of the process.
\<close>

theorem New_nil_conf_nop_below_panic:
  "New lib None handle = (zap_NewNop, None)
   \<and> New_part_004 lib None handle = (zap_NewNop, None)
   \<and> fst (Logger_log lib (fst (New lib None handle)) level msg now caller flds w) = w
   \<and> fst (Logger_log lib (Logger_With (fst (New lib None handle)) std) level msg now caller flds w) = w
   \<and> fst (Logger_log lib (fst (New_part_004 lib None handle)) level msg now caller flds w) = w
   \<and> fst (Logger_log lib (Logger_With (fst (New_part_004 lib None handle)) std) level msg now caller flds w) = w
   \<and> (level \<noteq> PanicLevel \<and> level \<noteq> FatalLevel \<longrightarrow>
        snd (Logger_log lib (fst (New lib None handle)) level msg now caller flds w) = Returns
        \<and> snd (Logger_log lib (Logger_With (fst (New lib None handle)) std) level msg now caller flds w) = Returns
        \<and> snd (Logger_log lib (fst (New_part_004 lib None handle)) level msg now caller flds w) = Returns
        \<and> snd (Logger_log lib (Logger_With (fst (New_part_004 lib None handle)) std) level msg now caller flds w) = Returns)
   \<and> snd (Logger_log lib (fst (New lib None handle)) PanicLevel msg now caller flds w) = Panics
   \<and> snd (Logger_log lib (fst (New lib None handle)) FatalLevel msg now caller flds w) = Exits
   \<and> snd (Logger_log lib (fst (New_part_004 lib None handle)) PanicLevel msg now caller flds w) = Panics
   \<and> snd (Logger_log lib (fst (New_part_004 lib None handle)) FatalLevel msg now caller flds w) = Exits"
proof -
  have n: "New lib None handle = (zap_NewNop, None)" "New_part_004 lib None handle = (zap_NewNop, None)"
    by (simp_all add: New_def New_part_004_def)
  have pf: "PanicLevel \<noteq> FatalLevel"
    by (simp add: PanicLevel_def FatalLevel_def)
  show ?thesis
    using pf
    by (simp add: n Logger_log_def Logger_With_nop Logger_write_nop terminal_action_nop)
qed

theorem New_nil_conf_nop_below_panic_witness:
  "ErrorLevel \<noteq> PanicLevel \<and> ErrorLevel \<noteq> FatalLevel
   \<and> Logger_log lib0 (fst (New lib0 None (Some 1))) ErrorLevel ''boom'' 0 caller0
        [String_field ''trace_id'' ''t1''] world0 = (world0, Returns)
   \<and> DPanicLevel \<noteq> PanicLevel \<and> DPanicLevel \<noteq> FatalLevel
   \<and> Logger_log lib0 (Logger_With (fst (New_part_004 lib0 None (Some 1))) [String_field ''service'' ''x''])
        DPanicLevel ''boom'' 0 caller0 [] world0 = (world0, Returns)"
proof -
  have d: "ErrorLevel \<noteq> PanicLevel \<and> ErrorLevel \<noteq> FatalLevel
      \<and> DPanicLevel \<noteq> PanicLevel \<and> DPanicLevel \<noteq> FatalLevel"
    by (simp add: ErrorLevel_def DPanicLevel_def PanicLevel_def FatalLevel_def)
  have a1: "fst (Logger_log lib0 (fst (New lib0 None (Some 1))) ErrorLevel ''boom'' 0 caller0
        [String_field ''trace_id'' ''t1''] world0) = world0"
    and b1: "snd (Logger_log lib0 (fst (New lib0 None (Some 1))) ErrorLevel ''boom'' 0 caller0
        [String_field ''trace_id'' ''t1''] world0) = Returns"
    using d New_nil_conf_nop_below_panic [of lib0 "Some 1" ErrorLevel "''boom''" 0 caller0
      "[String_field ''trace_id'' ''t1'']" world0 "[]"]
    by blast+
  have a2: "fst (Logger_log lib0 (Logger_With (fst (New_part_004 lib0 None (Some 1))) [String_field ''service'' ''x''])
        DPanicLevel ''boom'' 0 caller0 [] world0) = world0"
    and b2: "snd (Logger_log lib0 (Logger_With (fst (New_part_004 lib0 None (Some 1))) [String_field ''service'' ''x''])
        DPanicLevel ''boom'' 0 caller0 [] world0) = Returns"
    using d New_nil_conf_nop_below_panic [of lib0 "Some 1" DPanicLevel "''boom''" 0 caller0
      "[]" world0 "[String_field ''service'' ''x'']"]
    by blast+
  from d a1 b1 a2 b2 show ?thesis by (simp add: prod_eq_iff)
qed

text \<open>
  C9. Every sink that either version of the constructor builds carries the minimum
  severity of the specification: info by default, the parsed severity of the trimmed
  level string otherwise, and info again when the trimmed string does not parse. A level
  string never changes which sinks are built: they are those built for \<^verbatim>\<open>info\<close>.
\<close>

theorem New_minimum_severity:
  "(\<forall>core \<in> set (Logger_cores (fst (New lib (Some cf) handle))).
      Core_level core = spec_minimum_severity lib (Conf_Level cf))
   \<and> map is_RemoteCore (Logger_cores (fst (New lib (Some cf) handle)))
       = map is_RemoteCore (Logger_cores (fst (New lib (Some (cf\<lparr>Conf_Level := ''info''\<rparr>)) handle)))
   \<and> (\<forall>core \<in> set (Logger_cores (fst (New_part_004 lib (Some cf) handle))).
      Core_level core = spec_minimum_severity lib (Conf_Level cf))
   \<and> map is_RemoteCore (Logger_cores (fst (New_part_004 lib (Some cf) handle)))
       = map is_RemoteCore (Logger_cores (fst (New_part_004 lib (Some (cf\<lparr>Conf_Level := ''info''\<rparr>)) handle)))"
  by (auto simp add: New_def New_part_004_def Let_def zap_NewNop_def zap_New_Tee_AddCaller_def
      spec_minimum_severity_def NewConsoleCore_def NewRemoteCore_def split: option.splits)

theorem New_minimum_severity_witness:
  "map Core_level (Logger_cores (fst (New lib0
       (Some \<lparr>Conf_Console = True, Conf_Remote = True, Conf_Level = '' verbose '', Conf_handle = None\<rparr>)
       (Some 1)))) = [InfoLevel, InfoLevel]
   \<and> map Core_level (Logger_cores (fst (New lib0
       (Some \<lparr>Conf_Console = True, Conf_Remote = True, Conf_Level = '' warn  '', Conf_handle = None\<rparr>)
       (Some 1)))) = [WarnLevel, WarnLevel]
   \<and> map Core_level (Logger_cores (fst (New lib0
       (Some \<lparr>Conf_Console = True, Conf_Remote = True, Conf_Level = '''', Conf_handle = None\<rparr>)
       (Some 1)))) = [InfoLevel, InfoLevel]"
proof -
  have t1: "ascii_TrimSpace '' verbose '' = ''verbose''"
    by (simp add: ascii_TrimSpace_def is_space_def)
  have t2: "ascii_TrimSpace '' warn  '' = ''warn''"
    by (simp add: ascii_TrimSpace_def is_space_def)
  have t3: "ascii_TrimSpace '''' = ''''"
    by (simp add: ascii_TrimSpace_def is_space_def)
  show ?thesis
    using New_minimum_severity [of lib0
        "\<lparr>Conf_Console = True, Conf_Remote = True, Conf_Level = '' verbose '', Conf_handle = None\<rparr>" "Some 1"]
      New_minimum_severity [of lib0
        "\<lparr>Conf_Console = True, Conf_Remote = True, Conf_Level = '' warn  '', Conf_handle = None\<rparr>" "Some 1"]
      New_minimum_severity [of lib0
        "\<lparr>Conf_Console = True, Conf_Remote = True, Conf_Level = '''', Conf_handle = None\<rparr>" "Some 1"]
    by (simp add: New_def Let_def lib0_def t1 t2 t3 lower_ParseLevel_def zap_New_Tee_AddCaller_def
        NewConsoleCore_def NewRemoteCore_def spec_minimum_severity_def)
qed

subsection \<open>The trace id\<close>

lemma scanTraceId_find:
  "scanTraceId fs = (case find is_trace_field fs of Some f \<Rightarrow> Field_String f | None \<Rightarrow> '''')"
  by (induction fs) (simp_all add: is_trace_field_def)

text \<open>
  C4. The trace id of the envelope that a write through the remote core encodes is the
  string of the first trace field among the standing fields followed by the call-site
  fields, and the empty string when there is none; the standing fields are those that
  \<^verbatim>\<open>With\<close> appended, in order; and the bytes handed to the callback are the encoding of
  that envelope.
\<close>

theorem remoteCore_TraceId_first_match:
  "remoteLog_TraceId (remoteCore_envelope lib c entry flds)
     = (case find is_trace_field (remoteCore_fields c @ flds) of
          Some f \<Rightarrow> Field_String f
        | None \<Rightarrow> '''')
   \<and> remoteCore_fields (remoteCore_With c std) = remoteCore_fields c @ std
   \<and> remoteCore_Write lib c entry flds w =
       (case remoteCore_handle c of
          None \<Rightarrow> (w, None)
        | Some h \<Rightarrow>
            (case json_encode lib (remoteLog_json (remoteCore_envelope lib c entry flds)) of
               Some b \<Rightarrow> (invoke h b w, None)
             | None \<Rightarrow> (w, None)))"
proof -
  have "remoteLog_TraceId (remoteCore_envelope lib c entry flds)
      = scanTraceId (remoteCore_fields c @ flds)"
    by (cases "remoteCore_fields c") (simp_all add: remoteCore_envelope_def Let_def)
  moreover have "remoteCore_fields (remoteCore_With c std) = remoteCore_fields c @ std"
    by (simp add: remoteCore_With_def)
  ultimately show ?thesis
    by (simp add: scanTraceId_find remoteCore_Write_def)
qed

text \<open>
  Runs of the scan: a call-site trace id after a field of another type; no trace field;
  a standing \<^verbatim>\<open>TraceId\<close> before a call-site \<^verbatim>\<open>trace_id\<close>; a field named \<^verbatim>\<open>trace_id\<close> that is
  not a string and a near miss of the name, both passed over.
\<close>

lemma traceId_examples:
  "remoteLog_TraceId (remoteCore_envelope lib0 (NewRemoteCore InfoLevel (Some 1))
       (Logger_entry zap_NewNop InfoLevel ''hello'' 0 caller0)
       [Bool_field ''cancel'' True, String_field ''trace_id'' ''abc123'']) = ''abc123''
   \<and> remoteLog_TraceId (remoteCore_envelope lib0 (NewRemoteCore InfoLevel (Some 1))
       (Logger_entry zap_NewNop InfoLevel ''hello'' 0 caller0)
       [Bool_field ''cancel'' True]) = ''''
   \<and> remoteLog_TraceId (remoteCore_envelope lib0
       (remoteCore_With (NewRemoteCore InfoLevel (Some 1)) [String_field ''TraceId'' ''standing''])
       (Logger_entry zap_NewNop InfoLevel ''hello'' 0 caller0)
       [String_field ''trace_id'' ''call'']) = ''standing''
   \<and> remoteLog_TraceId (remoteCore_envelope lib0 (NewRemoteCore InfoLevel (Some 1))
       (Logger_entry zap_NewNop InfoLevel ''hello'' 0 caller0)
       [Bool_field ''trace_id'' True, String_field ''Trace_Id'' ''x'', String_field ''TraceId'' ''y'']) = ''y''"
  by (simp add: remoteCore_envelope_def Let_def NewRemoteCore_def remoteCore_With_def
      String_field_def Bool_field_def)

subsection \<open>The asynchronous relay\<close>

text \<open>
  The invariant holds of a new relay and is kept by every write and every move of the
  consumer.
\<close>

lemma AsyncLogger_inv_reachable:
  "(NewAsyncLogger sz handle = Some l \<longrightarrow> AsyncLogger_inv l)
   \<and> (AsyncLogger_inv l \<longrightarrow> AsyncLogger_inv (fst (AsyncLogger_Write l p)))
   \<and> (AsyncLogger_inv l \<longrightarrow> AsyncLogger_inv (fst (AsyncLogger_init_step l w)))"
  by (auto simp add: NewAsyncLogger_def AsyncLogger_inv_def AsyncLogger_Write_def
      AsyncLogger_init_step_def Let_def split: consumer.splits list.splits option.splits if_splits)

text \<open>
  C5. In every state of the relay and for every payload, the write returns in one step
  with the length of the payload and no error. When the send cannot go through (the
  buffer is at capacity and no receiver is parked) the relay is left as it was, and the
  result is the same as for an accepted payload; for a relay of positive capacity in a
  state it can reach, the buffer being at capacity is enough. A payload that is not
  dropped is handed to the parked consumer or appended to the buffer.
\<close>

theorem AsyncLogger_Write_always_accepts:
  "snd (AsyncLogger_Write l p) = (int (length p), None)
   \<and> (AsyncLogger_full l \<longrightarrow> fst (AsyncLogger_Write l p) = l)
   \<and> (AsyncLogger_inv l \<and> 0 < AsyncLogger_size l
        \<and> AsyncLogger_size l \<le> length (AsyncLogger_queue l)
      \<longrightarrow> fst (AsyncLogger_Write l p) = l)
   \<and> (\<not> AsyncLogger_full l \<longrightarrow>
        (AsyncLogger_consumer l = Parked
           \<and> fst (AsyncLogger_Write l p) = l\<lparr>AsyncLogger_consumer := Received p\<rparr>)
        \<or> (AsyncLogger_consumer l \<noteq> Parked
           \<and> fst (AsyncLogger_Write l p) = l\<lparr>AsyncLogger_queue := AsyncLogger_queue l @ [p]\<rparr>))"
  by (auto simp add: AsyncLogger_Write_def AsyncLogger_full_def AsyncLogger_inv_def Let_def)

theorem AsyncLogger_Write_always_accepts_witness:
  "AsyncLogger_full \<lparr>AsyncLogger_queue = [''a''], AsyncLogger_size = 1,
                     AsyncLogger_handle = Some 1, AsyncLogger_consumer = Running\<rparr>
   \<and> AsyncLogger_inv \<lparr>AsyncLogger_queue = [''a''], AsyncLogger_size = 1,
                     AsyncLogger_handle = Some 1, AsyncLogger_consumer = Running\<rparr>
   \<and> AsyncLogger_Write \<lparr>AsyncLogger_queue = [''a''], AsyncLogger_size = 1,
                     AsyncLogger_handle = Some 1, AsyncLogger_consumer = Running\<rparr> ''bc''
      = (\<lparr>AsyncLogger_queue = [''a''], AsyncLogger_size = 1,
                     AsyncLogger_handle = Some 1, AsyncLogger_consumer = Running\<rparr>, 2, None)
   \<and> \<not> AsyncLogger_full \<lparr>AsyncLogger_queue = [], AsyncLogger_size = 1,
                     AsyncLogger_handle = Some 1, AsyncLogger_consumer = Running\<rparr>
   \<and> AsyncLogger_Write \<lparr>AsyncLogger_queue = [], AsyncLogger_size = 1,
                     AsyncLogger_handle = Some 1, AsyncLogger_consumer = Running\<rparr> ''bc''
      = (\<lparr>AsyncLogger_queue = [''bc''], AsyncLogger_size = 1,
                     AsyncLogger_handle = Some 1, AsyncLogger_consumer = Running\<rparr>, 2, None)"
  using AsyncLogger_Write_always_accepts [of "\<lparr>AsyncLogger_queue = [''a''], AsyncLogger_size = 1,
                     AsyncLogger_handle = Some 1, AsyncLogger_consumer = Running\<rparr>" "''bc''"]
    AsyncLogger_Write_always_accepts [of "\<lparr>AsyncLogger_queue = [], AsyncLogger_size = 1,
                     AsyncLogger_handle = Some 1, AsyncLogger_consumer = Running\<rparr>" "''bc''"]
  by (simp add: AsyncLogger_full_def AsyncLogger_inv_def prod_eq_iff)

subsection \<open>The relay as a state machine\<close>

lemma relay_fifo_start:
  "NewAsyncLogger sz (Some h) = Some l0 \<Longrightarrow> relay_fifo h (calls w0) (relay_start l0 w0)"
  by (auto simp add: NewAsyncLogger_def relay_fifo_def relay_start_def AsyncLogger_inv_def
      relay_pending_def in_flight_def split: if_splits)

lemma relay_fifo_Produce:
  assumes "relay_fifo h base s"
  shows "relay_fifo h base (relay_step (Produce p) s)"
proof (cases "AsyncLogger_consumer (relay_logger s) = Parked")
  case True
  with assms show ?thesis
    by (auto simp add: relay_fifo_def AsyncLogger_Write_def AsyncLogger_full_def AsyncLogger_inv_def
        relay_pending_def in_flight_def Let_def)
next
  case False
  with assms show ?thesis
    by (auto simp add: relay_fifo_def AsyncLogger_Write_def AsyncLogger_full_def AsyncLogger_inv_def
        relay_pending_def in_flight_def Let_def split: consumer.splits)
qed

lemma relay_fifo_Consume:
  assumes "relay_fifo h base s"
  shows "relay_fifo h base (relay_step Consume s)"
proof (cases "AsyncLogger_consumer (relay_logger s)")
  case Running
  with assms show ?thesis
    by (cases "AsyncLogger_queue (relay_logger s)")
      (simp_all add: relay_fifo_def AsyncLogger_init_step_def AsyncLogger_inv_def
        relay_pending_def in_flight_def)
next
  case Parked
  with assms show ?thesis
    by (auto simp add: relay_fifo_def AsyncLogger_init_step_def AsyncLogger_inv_def
        relay_pending_def in_flight_def)
next
  case (Received b)
  with assms show ?thesis
    by (auto simp add: relay_fifo_def AsyncLogger_init_step_def AsyncLogger_inv_def
        relay_pending_def in_flight_def invoke_def)
qed

lemma relay_fifo_step: "relay_fifo h base s \<Longrightarrow> relay_fifo h base (relay_step ev s)"
  by (cases ev) (simp_all only: relay_fifo_Produce relay_fifo_Consume)

lemma relay_fifo_run: "relay_fifo h base s \<Longrightarrow> relay_fifo h base (relay_run evs s)"
  unfolding relay_run_def
  by (induction evs arbitrary: s) (simp_all add: relay_fifo_step)

lemma relay_needed_Consume:
  assumes "relay_fifo h base s"
  shows "relay_needed (relay_logger (relay_step Consume s)) \<le> relay_needed (relay_logger s) - 1"
proof (cases "AsyncLogger_consumer (relay_logger s)")
  case Running
  then show ?thesis
    by (cases "AsyncLogger_queue (relay_logger s)")
      (simp_all add: relay_needed_def AsyncLogger_init_step_def in_flight_def)
next
  case Parked
  with assms show ?thesis
    by (simp add: relay_fifo_def relay_needed_def AsyncLogger_init_step_def AsyncLogger_inv_def
        in_flight_def)
next
  case (Received b)
  then show ?thesis
    by (simp add: relay_needed_def AsyncLogger_init_step_def in_flight_def split: option.splits)
qed

lemma relay_accepted_Consume: "relay_accepted (relay_step Consume s) = relay_accepted s"
  by simp

lemma relay_drain:
  assumes "relay_fifo h base s" and "relay_needed (relay_logger s) \<le> k"
  shows "relay_pending (relay_run (replicate k Consume) s) = []
     \<and> relay_accepted (relay_run (replicate k Consume) s) = relay_accepted s
     \<and> relay_fifo h base (relay_run (replicate k Consume) s)"
  using assms
proof (induction k arbitrary: s)
  case 0
  then show ?case
    by (simp add: relay_run_def relay_needed_def relay_pending_def)
next
  case (Suc k)
  have f: "relay_fifo h base (relay_step Consume s)"
    using Suc.prems(1) by (rule relay_fifo_Consume)
  have n: "relay_needed (relay_logger (relay_step Consume s)) \<le> k"
    using relay_needed_Consume [OF Suc.prems(1)] Suc.prems(2) by simp
  have "relay_run (replicate (Suc k) Consume) s = relay_run (replicate k Consume) (relay_step Consume s)"
    by (simp add: relay_run_def)
  then show ?case
    using Suc.IH [OF f n] by simp
qed

lemma relay_needed_pending: "relay_needed (relay_logger s) \<le> 2 * length (relay_pending s)"
  by (simp add: relay_needed_def relay_pending_def)

lemma schedule0_run:
  "relay_run schedule0 (relay_start relay0 world0)
     = \<lparr>relay_logger = relay0\<lparr>AsyncLogger_queue := [''c'']\<rparr>,
        relay_world = \<lparr>calls = [(1, ''a'')], stdout = []\<rparr>,
        relay_accepted = [''a'', ''c'']\<rparr>"
  by (simp add: relay_run_def schedule0_def relay_start_def relay0_def world0_def
      AsyncLogger_Write_def AsyncLogger_full_def AsyncLogger_init_step_def invoke_def Let_def)

text \<open>
  C8. For a relay built by \<^verbatim>\<open>NewAsyncLogger\<close> over a callback and every schedule of writes
  and consumer moves: the invocations of the callback made so far, followed by the
  payloads still pending, are exactly the enqueued payloads in the order they were
  enqueued, all under that callback; the one consumer holds at most one payload at a
  time, a write never invokes the callback and a consumer move invokes it at most once;
  and once the consumer has made twice as many further moves as payloads are pending,
  every enqueued payload has been delivered, in that order.
\<close>

theorem AsyncLogger_delivers_fifo:
  assumes "NewAsyncLogger sz (Some h) = Some l0"
  shows "calls (relay_world (relay_run evs (relay_start l0 w0)))
           @ map (Pair h) (relay_pending (relay_run evs (relay_start l0 w0)))
         = calls w0 @ map (Pair h) (relay_accepted (relay_run evs (relay_start l0 w0)))
     \<and> length (in_flight (relay_logger (relay_run evs (relay_start l0 w0)))) \<le> 1
     \<and> (\<forall>k. 2 * length (relay_pending (relay_run evs (relay_start l0 w0))) \<le> k \<longrightarrow>
          calls (relay_world (relay_run (evs @ replicate k Consume) (relay_start l0 w0)))
            = calls w0 @ map (Pair h) (relay_accepted (relay_run evs (relay_start l0 w0)))
          \<and> relay_pending (relay_run (evs @ replicate k Consume) (relay_start l0 w0)) = [])
     \<and> relay_world (relay_step (Produce p) s) = relay_world s
     \<and> length (calls (relay_world (relay_step Consume s))) \<le> Suc (length (calls (relay_world s)))"
proof -
  let ?s = "relay_run evs (relay_start l0 w0)"
  have inv: "relay_fifo h (calls w0) ?s"
    using relay_fifo_start [OF assms] by (rule relay_fifo_run)
  have a: "calls (relay_world ?s) @ map (Pair h) (relay_pending ?s)
         = calls w0 @ map (Pair h) (relay_accepted ?s)"
    using inv by (simp add: relay_fifo_def)
  have b: "length (in_flight (relay_logger ?s)) \<le> 1"
    by (simp add: in_flight_def split: consumer.splits)
  have c: "calls (relay_world (relay_run (evs @ replicate k Consume) (relay_start l0 w0)))
            = calls w0 @ map (Pair h) (relay_accepted ?s)
          \<and> relay_pending (relay_run (evs @ replicate k Consume) (relay_start l0 w0)) = []"
    if k: "2 * length (relay_pending ?s) \<le> k" for k
  proof -
    have n: "relay_needed (relay_logger ?s) \<le> k"
      using relay_needed_pending [of ?s] k by simp
    have split: "relay_run (evs @ replicate k Consume) (relay_start l0 w0)
        = relay_run (replicate k Consume) ?s"
      by (simp add: relay_run_def)
    from relay_drain [OF inv n]
    have p: "relay_pending (relay_run (replicate k Consume) ?s) = []"
      and q: "relay_accepted (relay_run (replicate k Consume) ?s) = relay_accepted ?s"
      and f: "relay_fifo h (calls w0) (relay_run (replicate k Consume) ?s)"
      by blast+
    from f have r: "calls (relay_world (relay_run (replicate k Consume) ?s))
          @ map (Pair h) (relay_pending (relay_run (replicate k Consume) ?s))
        = calls w0 @ map (Pair h) (relay_accepted (relay_run (replicate k Consume) ?s))"
      by (simp add: relay_fifo_def)
    from r show ?thesis
      unfolding split p q by simp
  qed
  have d: "relay_world (relay_step (Produce p) s) = relay_world s"
    by simp
  have e: "length (calls (relay_world (relay_step Consume s))) \<le> Suc (length (calls (relay_world s)))"
    by (simp add: AsyncLogger_init_step_def invoke_def split: consumer.splits list.splits option.splits)
  from a b c d e show ?thesis by blast
qed

theorem AsyncLogger_delivers_fifo_witness:
  "NewAsyncLogger 1 (Some 1) = Some relay0
   \<and> relay_accepted (relay_run schedule0 (relay_start relay0 world0)) = [''a'', ''c'']
   \<and> calls (relay_world (relay_run schedule0 (relay_start relay0 world0))) = [(1, ''a'')]
   \<and> relay_pending (relay_run schedule0 (relay_start relay0 world0)) = [''c'']
   \<and> calls (relay_world (relay_run (schedule0 @ replicate 2 Consume) (relay_start relay0 world0)))
       = [(1, ''a''), (1, ''c'')]
   \<and> relay_pending (relay_run (schedule0 @ replicate 2 Consume) (relay_start relay0 world0)) = []"
proof -
  have n: "NewAsyncLogger 1 (Some 1) = Some relay0"
    by (simp add: NewAsyncLogger_def relay0_def)
  have p: "relay_pending (relay_run schedule0 (relay_start relay0 world0)) = [''c'']"
    unfolding schedule0_run by (simp add: relay_pending_def in_flight_def relay0_def)
  have k: "2 * length (relay_pending (relay_run schedule0 (relay_start relay0 world0))) \<le> 2"
    by (simp add: p)
  have w: "calls world0 = []"
    by (simp add: world0_def)
  from AsyncLogger_delivers_fifo [OF n, of schedule0 world0 "''x''" "relay_start relay0 world0"] k
  have "calls (relay_world (relay_run (schedule0 @ replicate 2 Consume) (relay_start relay0 world0)))
          = calls world0 @ map (Pair 1) (relay_accepted (relay_run schedule0 (relay_start relay0 world0)))
        \<and> relay_pending (relay_run (schedule0 @ replicate 2 Consume) (relay_start relay0 world0)) = []"
    by blast
  then show ?thesis
    using n p by (simp add: schedule0_run w)
qed

subsection \<open>Encoding failures\<close>




text \<open>
  The legacy writer hands its callback one payload per call: its re-encoded record, or
  the bytes it was given when they do not decode or the record does not encode.
\<close>

lemma Conf_Write_trace:
  "Conf_Write lib json_Unmarshal (Some conf) b w =
     (case Conf_handle conf of
        None \<Rightarrow> w
      | Some h \<Rightarrow>
          invoke h (case json_Unmarshal b of
                      None \<Rightarrow> b
                    | Some data \<Rightarrow>
                        (case json_encode lib (outputLog_json (outputLog_of data)) of
                           None \<Rightarrow> b
                         | Some out \<Rightarrow> out)) w,
      int (length b), None)"
  by (simp add: Conf_Write_def split: option.splits)

subsection \<open>Remote delivery\<close>

text \<open>
  C2, at the input where the constructor of the unnamed source file departs from it: a
  configuration with the console off, the remote sink on and no stored callback, and a
  callback passed to the constructor. The constructor returns the no-op entry point and
  a record emitted at info reaches no callback.
\<close>

theorem New_part_004_ignores_supplied_callback:
  "New_part_004 lib0 (Some (conf_remote None)) (Some 1) = (zap_NewNop, Some (conf_remote None))
   \<and> calls (fst (Logger_log lib0 (fst (New_part_004 lib0 (Some (conf_remote None)) (Some 1)))
        InfoLevel ''hello'' 0 caller0 [] world0)) = []"
  by (simp add: New_part_004_def conf_remote_def Let_def Logger_log_def Logger_write_def zap_NewNop_def world0_def)

text \<open>
  The constructor of \<^verbatim>\<open>logger.go\<close> delivers: with the console off, the remote
  sink on and a callback passed in, a record at or above the minimum severity whose
  envelope encodes is delivered to that callback exactly once, as the encoding of an
  object with the five keys whose \<^verbatim>\<open>Content\<close> is the message.
\<close>

lemma New_remote_only_delivers_once:
  assumes "Conf_Console cf = False" and "Conf_Remote cf"
    and "AtomicLevel_Enabled (spec_minimum_severity lib (Conf_Level cf)) level"
    and "env = remoteCore_envelope lib (NewRemoteCore (spec_minimum_severity lib (Conf_Level cf)) (Some h))
                (Logger_entry (zap_New_Tee_AddCaller []) level msg now caller) flds"
    and "json_encode lib (remoteLog_json env) = Some b"
  shows "calls (fst (Logger_log lib (fst (New lib (Some cf) (Some h))) level msg now caller flds w))
           = calls w @ [(h, b)]
     \<and> map fst (remoteLog_json env) = [''Path'', ''Level'', ''Content'', ''TraceId'', ''CreatedAt'']
     \<and> map_of (remoteLog_json env) ''Content'' = Some (JString msg)"
proof -
  have cores: "Logger_cores (fst (New lib (Some cf) (Some h)))
      = [RemoteCore (NewRemoteCore (spec_minimum_severity lib (Conf_Level cf)) (Some h))]"
    using assms(1,2)
    by (simp add: New_def Let_def zap_New_Tee_AddCaller_def spec_minimum_severity_def
        split: option.splits)
  have addc: "Logger_addCaller (fst (New lib (Some cf) (Some h)))"
    using assms(1,2) by (simp add: New_def Let_def zap_New_Tee_AddCaller_def)
  have entry: "Logger_entry (fst (New lib (Some cf) (Some h))) level msg now caller
      = Logger_entry (zap_New_Tee_AddCaller []) level msg now caller"
    using addc by (simp add: Logger_entry_def zap_New_Tee_AddCaller_def)
  have "calls (fst (Logger_log lib (fst (New lib (Some cf) (Some h))) level msg now caller flds w))
           = calls w @ [(h, b)]"
    using assms(3,4,5)
    by (simp add: Logger_log_def Logger_write_def cores entry remoteCore_Enabled_def NewRemoteCore_def
        remoteCore_Write_def invoke_def)
  moreover have "map fst (remoteLog_json env) = [''Path'', ''Level'', ''Content'', ''TraceId'', ''CreatedAt'']"
    by (simp add: remoteLog_json_def)
  moreover have "map_of (remoteLog_json env) ''Content'' = Some (JString msg)"
    by (simp add: remoteLog_json_def assms(4) remoteCore_envelope_def Let_def Logger_entry_def)
  ultimately show ?thesis by simp
qed

text \<open>The same input as above, through the constructor of \<^verbatim>\<open>logger.go\<close>.\<close>

lemma New_remote_only_example:
  "calls (fst (Logger_log lib0 (fst (New lib0 (Some (conf_remote None)) (Some 1)))
        InfoLevel ''hello'' 0 caller0 [] world0))
   = [(1, ''{'' @ [CHR 0x22] @ ''Path'' @ [CHR 0x22] @ '':'' @ [CHR 0x22] @ ''app/main.go:7'' @ [CHR 0x22] @ '','' @
          [CHR 0x22] @ ''Level'' @ [CHR 0x22] @ '':1,'' @
          [CHR 0x22] @ ''Content'' @ [CHR 0x22] @ '':'' @ [CHR 0x22] @ ''hello'' @ [CHR 0x22] @ '','' @
          [CHR 0x22] @ ''TraceId'' @ [CHR 0x22] @ '':'' @ [CHR 0x22] @ [CHR 0x22] @ '','' @
          [CHR 0x22] @ ''CreatedAt'' @ [CHR 0x22] @ '':'' @ [CHR 0x22] @ ''2006-01-02 15:04:05'' @ [CHR 0x22] @ ''}'')]"
  by (simp add: New_def conf_remote_def Let_def Logger_log_def Logger_write_def zap_New_Tee_AddCaller_def world0_def
      lib0_def ascii_TrimSpace_def NewRemoteCore_def remoteCore_Enabled_def AtomicLevel_Enabled_def
      InfoLevel_def remoteCore_Write_def remoteCore_envelope_def Logger_entry_def caller0_def
      remoteLog_json_def json_render_def int_digits_def digit_char_def levelToInt_def invoke_def)

subsection \<open>Derived handles over the memory of slices\<close>

lemma slice_elems_length:
  "slice_ok m s \<Longrightarrow> length (slice_elems m s) = slice_len s"
  by (auto simp add: slice_ok_def slice_elems_def split: option.splits)

lemma go_append_elems:
  assumes "slice_ok m s" and "go_append grow m s xs = (m', s')"
  shows "slice_elems m' s' = slice_elems m s @ xs"
proof (cases "slice_len s + length xs \<le> slice_cap s")
  case True
  show ?thesis
  proof (cases "slice_array s")
    case None
    with True assms show ?thesis
      by (auto simp add: go_append_def slice_ok_def slice_elems_def Let_def)
  next
    case (Some a)
    with True assms show ?thesis
      by (auto simp add: go_append_def slice_ok_def slice_elems_def Let_def)
  qed
next
  case False
  with assms slice_elems_length [OF assms(1)] show ?thesis
    by (auto simp add: go_append_def slice_elems_def Let_def)
qed

lemma go_append_ok:
  assumes "slice_ok m s" and "go_append grow m s xs = (m', s')"
  shows "slice_ok m' s' \<and> mem_next_array m \<le> mem_next_array m'
     \<and> mem_cores m' = mem_cores m \<and> mem_next_core m' = mem_next_core m"
proof (cases "slice_len s + length xs \<le> slice_cap s")
  case True
  with assms show ?thesis
    by (auto simp add: go_append_def slice_ok_def Let_def split: option.splits)
next
  case False
  with assms slice_elems_length [OF assms(1)] show ?thesis
    by (auto simp add: go_append_def slice_ok_def Let_def)
qed

lemma go_append_frame:
  assumes "slice_ok m t" and "slice_array s = None \<or> slice_array t \<noteq> slice_array s"
    and "go_append grow m s xs = (m', s')"
  shows "slice_elems m' t = slice_elems m t \<and> slice_ok m' t"
proof (cases "slice_len s + length xs \<le> slice_cap s")
  case True
  with assms show ?thesis
    by (auto simp add: go_append_def slice_ok_def slice_elems_def Let_def split: option.splits)
next
  case False
  with assms show ?thesis
    by (auto simp add: go_append_def slice_ok_def slice_elems_def Let_def split: option.splits)
qed

lemma go_append_array:
  assumes "slice_ok m s" and "go_append grow m s xs = (m', s')"
  shows "slice_array s' = slice_array s \<or> slice_array s' = Some (mem_next_array m)"
  using assms by (auto simp add: go_append_def Let_def split: option.splits if_splits)

lemma go_append_nil:
  assumes "go_append grow m nil_slice xs = (m', s')"
  shows "slice_array s' = None \<and> xs = [] \<and> m' = m \<and> s' = nil_slice
       \<or> slice_array s' = Some (mem_next_array m) \<and> xs \<noteq> [] \<and> mem_next_array m' = Suc (mem_next_array m)"
  using assms by (auto simp add: go_append_def nil_slice_def Let_def split: if_splits)

lemma go_append_fresh:
  assumes "slice_ok m s" and "xs \<noteq> []" and "go_append grow m s xs = (m', s')"
  shows "\<exists>a. slice_array s' = Some a \<and> (slice_array s = Some a \<or> a = mem_next_array m)
           \<and> a < mem_next_array m'"
  using assms
  by (auto simp add: go_append_def slice_ok_def Let_def split: option.splits if_splits)

lemma mem_ok_core:
  "mem_ok m \<Longrightarrow> p < mem_next_core m \<Longrightarrow> slice_ok m (obj_fields (mem_cores m p))"
  by (simp add: mem_ok_def list_all_iff)

lemma slice_ok_nil: "slice_ok m nil_slice"
  by (simp add: slice_ok_def nil_slice_def)

lemma slice_elems_empty_iff:
  "slice_ok m s \<Longrightarrow> (slice_elems m s = []) = (slice_len s = 0)"
  using slice_elems_length [of m s] by auto

lemma slice_elems_arrays:
  "mem_arrays m' = mem_arrays m \<Longrightarrow> slice_elems m' s = slice_elems m s"
  by (simp add: slice_elems_def split: option.splits)

lemma slice_ok_arrays:
  "mem_arrays m' = mem_arrays m \<Longrightarrow> mem_next_array m' = mem_next_array m
   \<Longrightarrow> slice_ok m' s = slice_ok m s"
  by (simp add: slice_ok_def split: option.splits)

lemma With_mem_empty:
  "slice_len flds = 0 \<Longrightarrow> remoteCore_With_mem grow m c flds = (m, c)"
  by (simp add: remoteCore_With_mem_def)

lemma With_mem_step:
  assumes ok: "mem_ok m" and c: "c < mem_next_core m" and f: "slice_ok m flds"
    and ne: "slice_len flds \<noteq> 0"
    and w: "remoteCore_With_mem grow m c flds = (m', c')"
  shows "c' = mem_next_core m"
    and "mem_next_core m' = Suc (mem_next_core m)"
    and "mem_next_array m \<le> mem_next_array m'"
    and "core_fields m' c' = core_fields m c @ slice_elems m flds"
    and "obj_level (mem_cores m' c') = obj_level (mem_cores m c)"
    and "obj_handle (mem_cores m' c') = obj_handle (mem_cores m c)"
    and "\<exists>a. slice_array (obj_fields (mem_cores m' c')) = Some a \<and> mem_next_array m \<le> a
             \<and> a < mem_next_array m'"
    and "\<And>p. p < mem_next_core m \<Longrightarrow> mem_cores m' p = mem_cores m p"
    and "\<And>t. slice_ok m t \<Longrightarrow> slice_ok m' t \<and> slice_elems m' t = slice_elems m t"
    and "mem_ok m'"
proof -
  let ?old = "obj_fields (mem_cores m c)"
  obtain m1 s1 where a1: "go_append grow m nil_slice (slice_elems m ?old) = (m1, s1)"
    by (cases "go_append grow m nil_slice (slice_elems m ?old)")
  obtain m2 s2 where a2: "go_append grow m1 s1 (slice_elems m1 flds) = (m2, s2)"
    by (cases "go_append grow m1 s1 (slice_elems m1 flds)")
  have res: "m' = m2\<lparr>mem_cores := (mem_cores m2)(mem_next_core m2 := (mem_cores m c)\<lparr>obj_fields := s2\<rparr>),
                     mem_next_core := Suc (mem_next_core m2)\<rparr>"
    and res_c: "c' = mem_next_core m2"
    using w ne a1 a2 by (auto simp add: remoteCore_With_mem_def Let_def)
  have okc: "slice_ok m ?old" using ok c by (rule mem_ok_core)
  have e1: "slice_elems m1 s1 = core_fields m c"
    using go_append_elems [OF slice_ok_nil a1]
    by (simp add: core_fields_def slice_elems_def nil_slice_def)
  have k1: "slice_ok m1 s1" "mem_next_array m \<le> mem_next_array m1"
    "mem_cores m1 = mem_cores m" "mem_next_core m1 = mem_next_core m"
    using go_append_ok [OF slice_ok_nil a1] by simp_all
  have fr1: "slice_elems m1 t = slice_elems m t \<and> slice_ok m1 t" if "slice_ok m t" for t
    using go_append_frame [OF that _ a1] by (simp add: nil_slice_def)
  have s1_arr: "slice_array s1 = None \<and> m1 = m \<or> slice_array s1 = Some (mem_next_array m)"
    using go_append_nil [OF a1] by auto
  have fl1: "slice_elems m1 flds = slice_elems m flds" "slice_ok m1 flds"
    using fr1 [OF f] by simp_all
  have fne: "slice_elems m1 flds \<noteq> []"
    using slice_elems_empty_iff [OF f] ne fl1 by simp
  have e2: "slice_elems m2 s2 = core_fields m c @ slice_elems m flds"
    using go_append_elems [OF k1(1) a2] e1 fl1 by simp
  have k2: "slice_ok m2 s2" "mem_next_array m1 \<le> mem_next_array m2"
    "mem_cores m2 = mem_cores m1" "mem_next_core m2 = mem_next_core m1"
    using go_append_ok [OF k1(1) a2] by simp_all
  have fr2: "slice_elems m2 t = slice_elems m t \<and> slice_ok m2 t" if t: "slice_ok m t" for t
  proof -
    have t1: "slice_ok m1 t" "slice_elems m1 t = slice_elems m t" using fr1 [OF t] by simp_all
    have "slice_array s1 = None \<or> slice_array t \<noteq> slice_array s1"
      using s1_arr t by (auto simp add: slice_ok_def split: option.splits)
    from go_append_frame [OF t1(1) this a2] t1(2) show ?thesis by simp
  qed
  have fresh: "\<exists>a. slice_array s2 = Some a \<and> mem_next_array m \<le> a \<and> a < mem_next_array m2"
    using go_append_fresh [OF k1(1) fne a2] s1_arr k1(2) by auto
  show "c' = mem_next_core m" using res_c k1 k2 by simp
  show "mem_next_core m' = Suc (mem_next_core m)" using res k1 k2 by simp
  show "mem_next_array m \<le> mem_next_array m'" using res k1 k2 by simp
  show "core_fields m' c' = core_fields m c @ slice_elems m flds"
    using e2 slice_elems_arrays [of m' m2 s2] by (simp add: res res_c core_fields_def)
  show "obj_level (mem_cores m' c') = obj_level (mem_cores m c)"
    by (simp add: res res_c)
  show "obj_handle (mem_cores m' c') = obj_handle (mem_cores m c)"
    by (simp add: res res_c)
  show "\<exists>a. slice_array (obj_fields (mem_cores m' c')) = Some a \<and> mem_next_array m \<le> a
             \<and> a < mem_next_array m'"
    using fresh by (simp add: res res_c)
  show cores: "\<And>p. p < mem_next_core m \<Longrightarrow> mem_cores m' p = mem_cores m p"
    using k1 k2 by (simp add: res)
  show frame: "\<And>t. slice_ok m t \<Longrightarrow> slice_ok m' t \<and> slice_elems m' t = slice_elems m t"
    using fr2 slice_elems_arrays [of m' m2] slice_ok_arrays [of m' m2] by (simp add: res)
  show "mem_ok m'"
  proof -
    have "slice_ok m' (obj_fields (mem_cores m' p))" if p: "p < mem_next_core m'" for p
    proof (cases "p < mem_next_core m")
      case True
      then have "slice_ok m (obj_fields (mem_cores m p))" using ok by (simp add: mem_ok_core)
      then show ?thesis using frame cores [OF True] by simp
    next
      case False
      then have "p = mem_next_core m2" using p res k1 k2 by simp
      then show ?thesis using k2(1) slice_ok_arrays [of m' m2 s2] by (simp add: res)
    qed
    then show ?thesis by (simp add: mem_ok_def list_all_iff)
  qed
qed

text \<open>
  C7. In a well-formed memory, \<^verbatim>\<open>With\<close> on a core with a non-empty field slice returns a
  new address whose core has the level and callback of the original and, as standing
  fields, the original's followed by the new ones in order (the value-level
  \<open>remoteCore_With\<close>); the original's standing fields are as before. After a second
  derivation from the same original, the first sibling still has its own fields, the
  second has the original's followed by its own, the three cores are at three addresses
  over three different backing arrays, and every core that existed before is unchanged.
\<close>

theorem remoteCore_With_isolated:
  assumes ok: "mem_ok m" and c: "c < mem_next_core m"
    and f1: "slice_ok m f1" and f2: "slice_ok m f2"
    and ne1: "slice_len f1 \<noteq> 0" and ne2: "slice_len f2 \<noteq> 0"
    and w1: "remoteCore_With_mem grow m c f1 = (m1, c1)"
    and w2: "remoteCore_With_mem grow m1 c f2 = (m2, c2)"
  shows "core_value m1 c1 = remoteCore_With (core_value m c) (slice_elems m f1)
     \<and> core_fields m1 c1 = core_fields m c @ slice_elems m f1
     \<and> core_fields m1 c = core_fields m c
     \<and> core_fields m2 c2 = core_fields m c @ slice_elems m f2
     \<and> core_fields m2 c1 = core_fields m c @ slice_elems m f1
     \<and> core_fields m2 c = core_fields m c
     \<and> c1 \<noteq> c \<and> c2 \<noteq> c \<and> c2 \<noteq> c1
     \<and> slice_array (obj_fields (mem_cores m2 c1)) \<noteq> slice_array (obj_fields (mem_cores m2 c))
     \<and> slice_array (obj_fields (mem_cores m2 c2)) \<noteq> slice_array (obj_fields (mem_cores m2 c))
     \<and> slice_array (obj_fields (mem_cores m2 c2)) \<noteq> slice_array (obj_fields (mem_cores m2 c1))
     \<and> (\<forall>p < mem_next_core m. core_value m2 p = core_value m p)"
proof -
  note s1 = With_mem_step [OF ok c f1 ne1 w1]
  have ok1: "mem_ok m1" by (rule s1(10))
  have c_1: "c < mem_next_core m1" using c s1(2) by simp
  have f2_1: "slice_ok m1 f2" "slice_elems m1 f2 = slice_elems m f2" using s1(9) [OF f2] by simp_all
  note s2 = With_mem_step [OF ok1 c_1 f2_1(1) ne2 w2]
  have okc: "slice_ok m (obj_fields (mem_cores m c))" using ok c by (rule mem_ok_core)
  have old1: "core_fields m1 p = core_fields m p" "mem_cores m1 p = mem_cores m p"
    if "p < mem_next_core m" for p
    using s1(8) [OF that] s1(9) [OF mem_ok_core [OF ok that]] by (simp_all add: core_fields_def)
  have old2: "core_fields m2 p = core_fields m1 p" "mem_cores m2 p = mem_cores m1 p"
    if "p < mem_next_core m1" for p
    using s2(8) [OF that] s2(9) [OF mem_ok_core [OF ok1 that]] by (simp_all add: core_fields_def)
  have c1_1: "c1 < mem_next_core m1" using s1(1,2) by simp
  have v1: "core_value m1 c1 = remoteCore_With (core_value m c) (slice_elems m f1)"
    using s1(4,5,6) slice_elems_empty_iff [OF f1] ne1
    by (simp add: core_value_def remoteCore_With_def)
  have a1: "core_fields m1 c1 = core_fields m c @ slice_elems m f1" by (rule s1(4))
  have a2: "core_fields m1 c = core_fields m c" using old1(1) [OF c] .
  have a3: "core_fields m2 c2 = core_fields m c @ slice_elems m f2"
    using s2(4) a2 f2_1(2) by simp
  have a4: "core_fields m2 c1 = core_fields m c @ slice_elems m f1"
    using old2(1) [OF c1_1] a1 by simp
  have a5: "core_fields m2 c = core_fields m c"
    using old2(1) [OF c_1] a2 by simp
  have d: "c1 \<noteq> c \<and> c2 \<noteq> c \<and> c2 \<noteq> c1"
    using s1(1,2) s2(1) c by simp
  obtain x1 where x1: "slice_array (obj_fields (mem_cores m1 c1)) = Some x1"
    "mem_next_array m \<le> x1" "x1 < mem_next_array m1"
    using s1(7) by blast
  obtain x2 where x2: "slice_array (obj_fields (mem_cores m2 c2)) = Some x2"
    "mem_next_array m1 \<le> x2"
    using s2(7) by blast
  have arr_c: "slice_array (obj_fields (mem_cores m2 c)) = slice_array (obj_fields (mem_cores m c))"
    using old2(2) [OF c_1] old1(2) [OF c] by simp
  have arr_c1: "slice_array (obj_fields (mem_cores m2 c1)) = Some x1"
    using old2(2) [OF c1_1] x1(1) by simp
  have below: "slice_array (obj_fields (mem_cores m c)) \<noteq> Some x" if "mem_next_array m \<le> x" for x
    using okc that by (auto simp add: slice_ok_def split: option.splits)
  have n1: "slice_array (obj_fields (mem_cores m2 c1)) \<noteq> slice_array (obj_fields (mem_cores m2 c))"
    using arr_c arr_c1 below [OF x1(2)] by simp
  have n2: "slice_array (obj_fields (mem_cores m2 c2)) \<noteq> slice_array (obj_fields (mem_cores m2 c))"
    using arr_c x2 below [of x2] s1(3) by simp
  have n3: "slice_array (obj_fields (mem_cores m2 c2)) \<noteq> slice_array (obj_fields (mem_cores m2 c1))"
    using arr_c1 x2 x1(3) by simp
  have fr: "\<forall>p < mem_next_core m. core_value m2 p = core_value m p"
  proof (intro allI impI)
    fix p assume p: "p < mem_next_core m"
    then have p1: "p < mem_next_core m1" using s1(2) by simp
    show "core_value m2 p = core_value m p"
      using old1 [OF p] old2 [OF p1] by (simp add: core_value_def)
  qed
  from v1 a1 a2 a3 a4 a5 d n1 n2 n3 fr show ?thesis by blast
qed

theorem remoteCore_With_isolated_witness:
  "mem_ok mem0 \<and> slice_ok mem0 arg1 \<and> slice_ok mem0 arg2
   \<and> snd (remoteCore_With_mem grow_spare mem0 0 arg1) = 1
   \<and> snd (remoteCore_With_mem grow_spare (fst (remoteCore_With_mem grow_spare mem0 0 arg1)) 0 arg2) = 2
   \<and> core_fields (fst (remoteCore_With_mem grow_spare (fst (remoteCore_With_mem grow_spare mem0 0 arg1)) 0 arg2)) 1
       = [String_field ''service'' ''x'', String_field ''trace_id'' ''t1'']
   \<and> core_fields (fst (remoteCore_With_mem grow_spare (fst (remoteCore_With_mem grow_spare mem0 0 arg1)) 0 arg2)) 2
       = [String_field ''service'' ''x'', String_field ''trace_id'' ''t2'']
   \<and> core_fields (fst (remoteCore_With_mem grow_spare (fst (remoteCore_With_mem grow_spare mem0 0 arg1)) 0 arg2)) 0
       = [String_field ''service'' ''x'']"
proof -
  have ok: "mem_ok mem0" and f1: "slice_ok mem0 arg1" and f2: "slice_ok mem0 arg2"
    by (simp_all add: mem_ok_def slice_ok_def mem0_def arg1_def arg2_def)
  have c: "(0::nat) < mem_next_core mem0" by (simp add: mem0_def)
  have ne1: "slice_len arg1 \<noteq> 0" and ne2: "slice_len arg2 \<noteq> 0"
    by (simp_all add: arg1_def arg2_def)
  have w1: "remoteCore_With_mem grow_spare mem0 0 arg1
      = (fst (remoteCore_With_mem grow_spare mem0 0 arg1), snd (remoteCore_With_mem grow_spare mem0 0 arg1))"
    by simp
  have w2: "remoteCore_With_mem grow_spare (fst (remoteCore_With_mem grow_spare mem0 0 arg1)) 0 arg2
      = (fst (remoteCore_With_mem grow_spare (fst (remoteCore_With_mem grow_spare mem0 0 arg1)) 0 arg2),
         snd (remoteCore_With_mem grow_spare (fst (remoteCore_With_mem grow_spare mem0 0 arg1)) 0 arg2))"
    by simp
  have n1: "snd (remoteCore_With_mem grow_spare mem0 0 arg1) = 1"
    by (simp add: remoteCore_With_mem_def mem0_def arg1_def go_append_def nil_slice_def
        slice_elems_def Let_def grow_spare_def split_beta)
  have n2: "snd (remoteCore_With_mem grow_spare (fst (remoteCore_With_mem grow_spare mem0 0 arg1)) 0 arg2) = 2"
    by (simp add: remoteCore_With_mem_def mem0_def arg1_def arg2_def go_append_def nil_slice_def
        slice_elems_def Let_def grow_spare_def split_beta)
  have e0: "core_fields mem0 0 = [String_field ''service'' ''x'']"
    by (simp add: core_fields_def slice_elems_def mem0_def)
  have e1: "slice_elems mem0 arg1 = [String_field ''trace_id'' ''t1'']"
    by (simp add: slice_elems_def mem0_def arg1_def)
  have e2: "slice_elems mem0 arg2 = [String_field ''trace_id'' ''t2'']"
    by (simp add: slice_elems_def mem0_def arg2_def)
  show ?thesis
    using remoteCore_With_isolated [OF ok c f1 f2 ne1 ne2 w1 w2] ok f1 f2
    by (simp add: n1 n2 e0 e1 e2)
qed

text \<open>
  What the copy in \<^verbatim>\<open>With\<close> avoids: appending to the field slice of the core of \<open>mem0\<close>
  directly, twice, writes both times into the spare element of the one array, and the
  first result then shows the second caller's field.
\<close>

lemma go_append_shares_spare_capacity:
  "slice_elems
     (fst (go_append grow_spare
             (fst (go_append grow_spare mem0 (obj_fields (mem_cores mem0 0)) (slice_elems mem0 arg1)))
             (obj_fields (mem_cores mem0 0)) (slice_elems mem0 arg2)))
     (snd (go_append grow_spare mem0 (obj_fields (mem_cores mem0 0)) (slice_elems mem0 arg1)))
   = [String_field ''service'' ''x'', String_field ''trace_id'' ''t2'']"
  by (simp add: mem0_def arg1_def arg2_def go_append_def slice_elems_def Let_def)

end
